theory Spec2Isabelle
  imports Complex_Main
begin

section \<open>WinEnhanceMouse: the interaction engine and its menu overlay\<close>

text \<open>
  A shallow embedding of \<^verbatim>\<open>winenhancemouse/engine.py\<close>, \<^verbatim>\<open>gui/menu_overlay.py\<close>,
  the data classes of \<^verbatim>\<open>config.py\<close> and \<^verbatim>\<open>ActionRegistry.execute\<close> of
  \<^verbatim>\<open>actions/registry.py\<close>.

  Naming: a private attribute \<^verbatim>\<open>self._x\<close> of \<^verbatim>\<open>Engine\<close> is the field \<open>s_x\<close>, a private
  attribute \<^verbatim>\<open>self._x\<close> of \<^verbatim>\<open>MenuOverlay\<close> is the field \<open>o_x\<close> (an Isabelle name cannot
  start with an underscore, and the engine and a mode both have a \<^verbatim>\<open>primary_queue\<close>).
  \<^verbatim>\<open>ActionBinding.id\<close> is \<open>ident\<close>, since \<open>id\<close> is the identity function of HOL.
\<close>

subsection \<open>Data classes of config.py and menu\_overlay.py\<close>

text \<open>
  \<^verbatim>\<open>params: Dict[str, Any]\<close> is an association list of strings. Of \<^verbatim>\<open>AppConfig\<close> the
  mode list and the \<^verbatim>\<open>ai.enabled\<close> flag are kept: the engine reads nothing else of it
  in the code modelled here (appearance and assistant settings only reach the renderer
  and the assistant).
\<close>

record ActionBinding =
  ident :: string
  label :: string
  params :: "(string \<times> string) list"

record ModeConfig =
  name :: string
  primary_queue :: "ActionBinding list"
  secondary_queue :: "ActionBinding list"

record AppConfig =
  modes :: "ModeConfig list"
  ai_enabled :: bool

record MenuItem =
  binding :: ActionBinding
  queue_level :: int

text \<open>
  \<open>o_root\<close> tells whether the Tk window has been created (\<^verbatim>\<open>self._root\<close> is not
  \<^verbatim>\<open>None\<close>). Rendering is scheduled on the window's thread and changes none of these
  fields.
\<close>

record MenuOverlay =
  o_items :: "MenuItem list"
  o_focus_index :: int
  o_visible :: bool
  o_root :: bool

subsection \<open>Errors and Python list indexing\<close>

datatype error =
  RuntimeError
  | KeyError string
  | IndexError
  | ValueError string
  | HandlerError string

text \<open>\<^verbatim>\<open>xs[i]\<close>: a negative index counts from the end, an index out of range raises.\<close>

definition getitem :: "'a list \<Rightarrow> int \<Rightarrow> error + 'a" where
  "getitem xs i =
     (if 0 \<le> i \<and> i < int (length xs) then Inr (xs ! nat i)
      else if i < 0 \<and> - int (length xs) \<le> i then Inr (xs ! nat (int (length xs) + i))
      else Inl IndexError)"

subsection \<open>Double precision\<close>

text \<open>
  Python's \<^verbatim>\<open>float\<close> is IEEE 754 binary64: 53 significant bits, exponents from -1022
  (below that the spacing stays \<open>2 powr - 1074\<close>), results rounded to the nearest
  representable number, a tie to the one with an even significand. \<open>binary64 x\<close> is
  the real value of the number that \<open>x\<close> rounds to; a literal such as \<^verbatim>\<open>0.35\<close> denotes
  \<open>binary64 0.35\<close>, and \<^verbatim>\<open>a - b\<close> on two floats is \<open>binary64 (a - b)\<close>. A result beyond the
  largest binary64 number is an infinity in Python; here it stays the large real, which
  compares with every finite number as the infinity does.
\<close>

definition round_half_even :: "real \<Rightarrow> int" where
  "round_half_even r =
     (let f = \<lfloor>r\<rfloor>
      in if r - of_int f < 1 / 2 then f
         else if 1 / 2 < r - of_int f then f + 1
         else if even f then f else f + 1)"

definition binary64 :: "real \<Rightarrow> real" where
  "binary64 x =
     (if x = 0 then 0
      else (let e = max \<lfloor>log 2 \<bar>x\<bar>\<rfloor> (- 1022) - 52
            in of_int (round_half_even (x / 2 powr of_int e)) * 2 powr of_int e))"

subsection \<open>The engine state\<close>

text \<open>
  \<open>dispatched\<close> is not an attribute of the Python object. It is the trace of the calls
  \<^verbatim>\<open>registry.execute(identifier, params)\<close> made so far, in call order: the registry is a
  module-level object whose handlers act on the operating system, and the trace is
  what the model keeps of those effects. A time stamp (\<^verbatim>\<open>time.time()\<close>, seconds) is the
  real value of a binary64 number.
\<close>

record Engine =
  s_config :: AppConfig
  s_current_mode_index :: int
  s_overlay :: MenuOverlay
  s_menu_active :: bool
  s_primary_queue :: "ActionBinding list"
  s_secondary_queue :: "ActionBinding list"
  s_last_left_click :: real
  s_settings_open :: bool
  s_ai_window :: bool
  dispatched :: "(string \<times> (string \<times> string) list) list"

text \<open>
  A method either returns or raises. The object is mutated in place, so what was
  changed before an exception stays changed: \<open>Raised\<close> carries the state too.
\<close>

datatype outcome = Returned Engine | Raised error Engine

definition and_then :: "outcome \<Rightarrow> (Engine \<Rightarrow> outcome) \<Rightarrow> outcome" where
  "and_then r f = (case r of Returned e \<Rightarrow> f e | Raised err e \<Rightarrow> Raised err e)"

text \<open>
  What an event handler reads from outside the engine: the clock, the registry of
  actions (a handler returns \<open>None\<close> when it returns normally and \<open>Some err\<close> when it
  raises), and the configuration that a modal settings session leaves behind.
\<close>

type_synonym handler = "(string \<times> string) list \<Rightarrow> error option"

record env =
  clock :: real
  registry :: "string \<Rightarrow> handler option"
  edited :: AppConfig

subsection \<open>MenuOverlay\<close>

definition overlay_init :: MenuOverlay where
  "overlay_init = \<lparr>o_items = [], o_focus_index = 0, o_visible = False, o_root = False\<rparr>"

definition overlay_open :: "MenuItem list \<Rightarrow> MenuOverlay \<Rightarrow> MenuOverlay" where
  "overlay_open items ov =
     ov\<lparr>o_items := items, o_focus_index := 0, o_root := True, o_visible := True\<rparr>"

definition overlay_close :: "MenuOverlay \<Rightarrow> MenuOverlay" where
  "overlay_close ov = ov\<lparr>o_visible := False\<rparr>"

definition focus_next :: "MenuOverlay \<Rightarrow> MenuOverlay" where
  "focus_next ov =
     (if o_items ov = [] then ov
      else ov\<lparr>o_focus_index := (o_focus_index ov + 1) mod int (length (o_items ov))\<rparr>)"

definition focus_prev :: "MenuOverlay \<Rightarrow> MenuOverlay" where
  "focus_prev ov =
     (if o_items ov = [] then ov
      else ov\<lparr>o_focus_index := (o_focus_index ov - 1) mod int (length (o_items ov))\<rparr>)"

subsection \<open>ActionRegistry.execute\<close>

text \<open>
  \<^verbatim>\<open>params or {}\<close> is \<^verbatim>\<open>params\<close> for a dictionary. The call is entered in the trace
  before the identifier is looked up.
\<close>

definition registry_execute ::
  "(string \<Rightarrow> handler option) \<Rightarrow> string \<Rightarrow> (string \<times> string) list \<Rightarrow> Engine \<Rightarrow> outcome" where
  "registry_execute reg identifier ps e =
     (let e1 = e\<lparr>dispatched := dispatched e @ [(identifier, ps)]\<rparr>
      in case reg identifier of
           None \<Rightarrow> Raised (KeyError identifier) e1
         | Some h \<Rightarrow> (case h ps of None \<Rightarrow> Returned e1 | Some err \<Rightarrow> Raised err e1))"

subsection \<open>Engine\<close>

definition engine_init :: "AppConfig \<Rightarrow> Engine" where
  "engine_init cfg =
     \<lparr>s_config = cfg, s_current_mode_index = 0, s_overlay = overlay_init,
      s_menu_active = False, s_primary_queue = [], s_secondary_queue = [],
      s_last_left_click = 0, s_settings_open = False, s_ai_window = False,
      dispatched = []\<rparr>"

definition current_mode :: "Engine \<Rightarrow> error + ModeConfig" where
  "current_mode e =
     (if modes (s_config e) = [] then Inl RuntimeError
      else getitem (modes (s_config e)) (s_current_mode_index e))"

definition menu_items :: "ModeConfig \<Rightarrow> MenuItem list" where
  "menu_items m =
     map (\<lambda>b. \<lparr>binding = b, queue_level = 1\<rparr>) (primary_queue m)
     @ map (\<lambda>b. \<lparr>binding = b, queue_level = 2\<rparr>) (secondary_queue m)"

definition toggle_menu :: "bool \<Rightarrow> Engine \<Rightarrow> outcome" where
  "toggle_menu force_close e =
     (if s_menu_active e \<and> \<not> force_close then
        Returned (e\<lparr>s_overlay := overlay_close (s_overlay e), s_menu_active := False\<rparr>)
      else if force_close then
        Returned (e\<lparr>s_overlay := overlay_close (s_overlay e), s_menu_active := False\<rparr>)
      else
        (case current_mode e of
           Inl err \<Rightarrow> Raised err e
         | Inr m \<Rightarrow>
             Returned (e\<lparr>s_overlay := overlay_open (menu_items m) (s_overlay e),
                         s_primary_queue := [], s_secondary_queue := [],
                         s_menu_active := True\<rparr>)))"

definition current_focus_binding :: "Engine \<Rightarrow> error + ActionBinding option" where
  "current_focus_binding e =
     (case current_mode e of
        Inl err \<Rightarrow> Inl err
      | Inr m \<Rightarrow>
          (let all_items = primary_queue m @ secondary_queue m
           in if all_items = [] then Inr None
              else (case getitem all_items
                           (max 0 (min (int (length all_items) - 1)
                                       (o_focus_index (s_overlay e)))) of
                      Inl err \<Rightarrow> Inl err
                    | Inr b \<Rightarrow> Inr (Some b))))"

definition handle_left_click :: "env \<Rightarrow> Engine \<Rightarrow> outcome" where
  "handle_left_click v e =
     (let now = clock v;
          double_click = (binary64 (now - s_last_left_click e) < binary64 0.35);
          e1 = e\<lparr>s_last_left_click := now\<rparr>
      in case current_focus_binding e1 of
           Inl err \<Rightarrow> Raised err e1
         | Inr None \<Rightarrow> Returned e1
         | Inr (Some focused) \<Rightarrow>
             (if double_click then
                Returned (e1\<lparr>s_secondary_queue := s_secondary_queue e1 @ [focused]\<rparr>)
              else
                Returned (e1\<lparr>s_primary_queue := s_primary_queue e1 @ [focused]\<rparr>)))"

text \<open>\<^verbatim>\<open>list.pop()\<close> on a non-empty list removes its last element.\<close>

definition handle_right_click :: "Engine \<Rightarrow> outcome" where
  "handle_right_click e =
     (if s_primary_queue e \<noteq> [] then
        Returned (e\<lparr>s_primary_queue := butlast (s_primary_queue e)\<rparr>)
      else if s_secondary_queue e \<noteq> [] then
        Returned (e\<lparr>s_secondary_queue := butlast (s_secondary_queue e)\<rparr>)
      else toggle_menu True e)"

definition handle_select :: "MenuItem \<Rightarrow> Engine \<Rightarrow> Engine" where
  "handle_select item e =
     (if queue_level item = 1 then
        e\<lparr>s_primary_queue := s_primary_queue e @ [binding item]\<rparr>
      else e\<lparr>s_secondary_queue := s_secondary_queue e @ [binding item]\<rparr>)"

definition handle_cancel :: "Engine \<Rightarrow> outcome" where
  "handle_cancel e = toggle_menu True e"

text \<open>
  One \<^verbatim>\<open>for\<close> statement of \<^verbatim>\<open>_execute_queues\<close>: an exception ends the iteration and
  leaves the method.
\<close>

fun dispatch_all :: "(string \<Rightarrow> handler option) \<Rightarrow> ActionBinding list \<Rightarrow> Engine \<Rightarrow> outcome" where
  "dispatch_all reg [] e = Returned e"
| "dispatch_all reg (b # bs) e =
     and_then (registry_execute reg (ident b) (params b) e) (dispatch_all reg bs)"

definition execute_queues :: "env \<Rightarrow> Engine \<Rightarrow> outcome" where
  "execute_queues v e =
     and_then (dispatch_all (registry v) (s_primary_queue e) e)
       (\<lambda>e1. and_then (dispatch_all (registry v) (s_secondary_queue e1) e1)
         (toggle_menu True))"

text \<open>
  \<^verbatim>\<open>_open_settings\<close>: the modal settings window runs between setting and resetting
  \<^verbatim>\<open>_settings_open\<close>; afterwards the configuration is read again.
\<close>

definition open_settings :: "env \<Rightarrow> Engine \<Rightarrow> outcome" where
  "open_settings v e =
     (if s_settings_open e then Returned e
      else Returned (e\<lparr>s_config := edited v, s_settings_open := False\<rparr>))"

definition toggle_ai_window :: "Engine \<Rightarrow> outcome" where
  "toggle_ai_window e =
     (if \<not> ai_enabled (s_config e) then Returned e
      else if s_ai_window e then Returned (e\<lparr>s_ai_window := False\<rparr>)
      else Returned (e\<lparr>s_ai_window := True\<rparr>))"

subsection \<open>Event handlers\<close>

datatype Button = Unknown | Left | Middle | Right | X1 | X2

datatype Key = Esc | F9 | OtherKey

definition on_click :: "env \<Rightarrow> int \<Rightarrow> int \<Rightarrow> Button \<Rightarrow> bool \<Rightarrow> Engine \<Rightarrow> outcome" where
  "on_click v x y button pressed e =
     (if \<not> pressed then Returned e
      else if button = Middle then toggle_menu False e
      else if \<not> s_menu_active e then Returned e
      else if button = Left then handle_left_click v e
      else if button = Right then handle_right_click e
      else if button = X1 then open_settings v e
      else if button = X2 then execute_queues v e
      else Returned e)"

definition on_scroll :: "int \<Rightarrow> int \<Rightarrow> int \<Rightarrow> int \<Rightarrow> Engine \<Rightarrow> outcome" where
  "on_scroll x y dx dy e =
     (if \<not> s_menu_active e then Returned e
      else if dy > 0 then Returned (e\<lparr>s_overlay := focus_prev (s_overlay e)\<rparr>)
      else Returned (e\<lparr>s_overlay := focus_next (s_overlay e)\<rparr>))"

definition on_key_press :: "Key \<Rightarrow> Engine \<Rightarrow> outcome" where
  "on_key_press key e =
     and_then (if key = Esc \<and> s_menu_active e then toggle_menu True e else Returned e)
       (\<lambda>e1. if key = F9 then toggle_ai_window e1 else Returned e1)"

text \<open>
  The overlay's own \<^verbatim>\<open>select_current\<close> and \<^verbatim>\<open>cancel\<close> call back into the engine
  (\<^verbatim>\<open>on_select = _handle_select\<close>, \<^verbatim>\<open>on_cancel = _handle_cancel\<close>).
\<close>

definition select_current :: "Engine \<Rightarrow> outcome" where
  "select_current e =
     (if o_items (s_overlay e) = [] then Returned e
      else (case getitem (o_items (s_overlay e)) (o_focus_index (s_overlay e)) of
              Inl err \<Rightarrow> Raised err e
            | Inr item \<Rightarrow> Returned (handle_select item e)))"

definition cancel :: "Engine \<Rightarrow> outcome" where
  "cancel e = handle_cancel e"

text \<open>
  A run of the listener: events are handled one at a time; an exception that leaves a
  callback ends the run.
\<close>

datatype event =
  Click int int Button bool
  | Scroll int int int int
  | KeyPress Key
  | SelectCurrent
  | Cancel

fun handle :: "env \<Rightarrow> event \<Rightarrow> Engine \<Rightarrow> outcome" where
  "handle v (Click x y button pressed) e = on_click v x y button pressed e"
| "handle v (Scroll x y dx dy) e = on_scroll x y dx dy e"
| "handle v (KeyPress key) e = on_key_press key e"
| "handle v SelectCurrent e = select_current e"
| "handle v Cancel e = cancel e"

fun run :: "(env \<times> event) list \<Rightarrow> Engine \<Rightarrow> outcome" where
  "run [] e = Returned e"
| "run (ve # rest) e = and_then (handle (fst ve) (snd ve) e) (run rest)"

subsection \<open>Notions used to state the properties\<close>

text \<open>
  The call that \<^verbatim>\<open>registry.execute(binding.id, binding.params)\<close> adds to the trace, and
  what that call does: \<open>None\<close> when it returns, \<open>Some err\<close> when it raises (an unknown
  identifier is a \<^verbatim>\<open>KeyError\<close>, otherwise whatever the handler raises).
\<close>

definition call_of :: "ActionBinding \<Rightarrow> string \<times> (string \<times> string) list" where
  "call_of b = (ident b, params b)"

definition dispatch_result :: "(string \<Rightarrow> handler option) \<Rightarrow> ActionBinding \<Rightarrow> error option" where
  "dispatch_result reg b =
     (case reg (ident b) of None \<Rightarrow> Some (KeyError (ident b)) | Some h \<Rightarrow> h (params b))"

text \<open>
  The test \<^verbatim>\<open>now - last < 0.35\<close> on floats holds exactly when the real difference is
  below \<open>window\<close>, the midpoint between the binary64 number \<^verbatim>\<open>0.35\<close>
  (6305039478318694 / 2 ^ 54) and the one below it (\<open>double_click_test\<close>). Time stamps
  \<open>on_grid\<close> are the multiples of \<open>1 / 2 ^ 52\<close> s: 0.0 and every binary64 number of
  magnitude 1 or more, so every reading of a clock that counts seconds since 1970
  (\<open>binary64_on_grid\<close>). Between two of them the test is exactly a gap of less than
  350 ms (\<open>grid_test\<close>).
\<close>

definition window :: real where
  "window = 12610078956637387 / 2 ^ 55"

definition on_grid :: "real \<Rightarrow> bool" where
  "on_grid t = (t * 2 ^ 52 \<in> \<int>)"

text \<open>
  \<open>rapid_after t us\<close>: the time stamps \<open>us\<close> follow \<open>t\<close> and one another with a gap of
  less than 350 ms each. \<open>left_clicks vs\<close> is a run of left-button presses, one per
  environment.
\<close>

fun rapid_after :: "real \<Rightarrow> real list \<Rightarrow> bool" where
  "rapid_after t [] = True"
| "rapid_after t (u # us) = (u - t < 0.35 \<and> rapid_after u us)"

definition left_clicks :: "env list \<Rightarrow> (env \<times> event) list" where
  "left_clicks vs = map (\<lambda>v. (v, Click 0 0 Left True)) vs"

text \<open>
  The focus index is a position in the displayed list (0 when nothing is displayed);
  \<open>state_of\<close> is the engine state an outcome leaves, returned or raised.
\<close>

definition focus_valid :: "MenuOverlay \<Rightarrow> bool" where
  "focus_valid ov =
     (if o_items ov = [] then o_focus_index ov = 0
      else 0 \<le> o_focus_index ov \<and> o_focus_index ov < int (length (o_items ov)))"

fun state_of :: "outcome \<Rightarrow> Engine" where
  "state_of (Returned e) = e"
| "state_of (Raised err e) = e"

text \<open>
  The mouse listener (pynput, which is not part of this repository) reports a wheel
  notch as \<^verbatim>\<open>dy\<close>: positive for a wheel rotated forward, away from the user (scroll
  up), negative for a wheel rotated backward, toward the user (scroll down).
\<close>

datatype wheel = AwayFromUser | TowardUser

definition wheel_dy :: "wheel \<Rightarrow> int" where
  "wheel_dy w = (case w of AwayFromUser \<Rightarrow> 1 | TowardUser \<Rightarrow> - 1)"

subsection \<open>Example configurations and states\<close>

definition copy_binding :: ActionBinding where
  "copy_binding = \<lparr>ident = ''copy'', label = ''Copy'', params = []\<rparr>"

definition paste_binding :: ActionBinding where
  "paste_binding = \<lparr>ident = ''paste'', label = ''Paste'', params = []\<rparr>"

definition cut_binding :: ActionBinding where
  "cut_binding = \<lparr>ident = ''cut'', label = ''Cut'', params = []\<rparr>"

definition unknown_binding :: ActionBinding where
  "unknown_binding = \<lparr>ident = ''no_such_action'', label = ''Nothing'', params = []\<rparr>"

definition default_mode :: ModeConfig where
  "default_mode = \<lparr>name = ''default'', primary_queue = [copy_binding, paste_binding],
                    secondary_queue = [cut_binding]\<rparr>"

definition empty_mode :: ModeConfig where
  "empty_mode = \<lparr>name = ''empty'', primary_queue = [], secondary_queue = []\<rparr>"

definition default_config :: AppConfig where
  "default_config = \<lparr>modes = [default_mode], ai_enabled = False\<rparr>"

definition empty_config :: AppConfig where
  "empty_config = \<lparr>modes = [empty_mode], ai_enabled = False\<rparr>"

text \<open>
  \<^verbatim>\<open>_open_url\<close> of \<^verbatim>\<open>registry.py\<close> raises \<^verbatim>\<open>ValueError\<close> when its parameters hold no
  (or an empty) \<^verbatim>\<open>url\<close>.
\<close>

definition open_url_handler :: handler where
  "open_url_handler ps =
     (case map_of ps ''url'' of
        None \<Rightarrow> Some (ValueError ''url parameter required'')
      | Some url \<Rightarrow> if url = [] then Some (ValueError ''url parameter required'') else None)"

definition open_url_binding :: ActionBinding where
  "open_url_binding = \<lparr>ident = ''open_url'', label = ''Open'', params = []\<rparr>"

text \<open>A registry that knows four of the identifiers registered in \<^verbatim>\<open>registry.py\<close>.\<close>

definition example_registry :: "string \<Rightarrow> handler option" where
  "example_registry i =
     (if i = ''copy'' \<or> i = ''paste'' \<or> i = ''cut'' then Some (\<lambda>ps. None)
      else if i = ''open_url'' then Some open_url_handler
      else None)"

definition at_time :: "real \<Rightarrow> env" where
  "at_time t = \<lparr>clock = t, registry = example_registry, edited = default_config\<rparr>"

definition faulty_mode :: ModeConfig where
  "faulty_mode = \<lparr>name = ''faulty'', primary_queue = [copy_binding, unknown_binding],
                   secondary_queue = [paste_binding]\<rparr>"

definition faulty_config :: AppConfig where
  "faulty_config = \<lparr>modes = [faulty_mode], ai_enabled = False\<rparr>"

definition links_mode :: ModeConfig where
  "links_mode = \<lparr>name = ''links'', primary_queue = [open_url_binding, copy_binding],
                  secondary_queue = [paste_binding]\<rparr>"

definition links_config :: AppConfig where
  "links_config = \<lparr>modes = [links_mode], ai_enabled = False\<rparr>"

text \<open>The engine right after the menu was opened, on either configuration.\<close>

definition opened_default :: Engine where
  "opened_default =
     \<lparr>s_config = default_config, s_current_mode_index = 0,
      s_overlay = \<lparr>o_items = [\<lparr>binding = copy_binding, queue_level = 1\<rparr>,
                               \<lparr>binding = paste_binding, queue_level = 1\<rparr>,
                               \<lparr>binding = cut_binding, queue_level = 2\<rparr>],
                    o_focus_index = 0, o_visible = True, o_root = True\<rparr>,
      s_menu_active = True, s_primary_queue = [], s_secondary_queue = [],
      s_last_left_click = 0, s_settings_open = False, s_ai_window = False,
      dispatched = []\<rparr>"

definition opened_empty :: Engine where
  "opened_empty =
     \<lparr>s_config = empty_config, s_current_mode_index = 0,
      s_overlay = \<lparr>o_items = [], o_focus_index = 0, o_visible = True, o_root = True\<rparr>,
      s_menu_active = True, s_primary_queue = [], s_secondary_queue = [],
      s_last_left_click = 0, s_settings_open = False, s_ai_window = False,
      dispatched = []\<rparr>"

text \<open>
  The engine after every item of the menu was clicked once, the last one as the second
  click of a double click: two bindings in the primary queue, one in the secondary queue.
\<close>

definition queue_events :: "(env \<times> event) list" where
  "queue_events =
     [(at_time 999, Click 0 0 Middle True),
      (at_time 1000, Click 0 0 Left True),
      (at_time 1000.5, Scroll 0 0 0 (- 1)),
      (at_time 1001, Click 0 0 Left True),
      (at_time 1001.125, Scroll 0 0 0 (- 1)),
      (at_time 1001.25, Click 0 0 Left True)]"

definition queued_default :: Engine where
  "queued_default =
     opened_default\<lparr>s_overlay := (s_overlay opened_default)\<lparr>o_focus_index := 2\<rparr>,
                    s_primary_queue := [copy_binding, paste_binding],
                    s_secondary_queue := [cut_binding],
                    s_last_left_click := 1001.25\<rparr>"

definition queued_faulty :: Engine where
  "queued_faulty =
     \<lparr>s_config = faulty_config, s_current_mode_index = 0,
      s_overlay = \<lparr>o_items = [\<lparr>binding = copy_binding, queue_level = 1\<rparr>,
                               \<lparr>binding = unknown_binding, queue_level = 1\<rparr>,
                               \<lparr>binding = paste_binding, queue_level = 2\<rparr>],
                    o_focus_index = 2, o_visible = True, o_root = True\<rparr>,
      s_menu_active = True, s_primary_queue = [copy_binding, unknown_binding],
      s_secondary_queue = [paste_binding],
      s_last_left_click = 1001.25, s_settings_open = False, s_ai_window = False,
      dispatched = []\<rparr>"

definition queued_links :: Engine where
  "queued_links =
     \<lparr>s_config = links_config, s_current_mode_index = 0,
      s_overlay = \<lparr>o_items = [\<lparr>binding = open_url_binding, queue_level = 1\<rparr>,
                               \<lparr>binding = copy_binding, queue_level = 1\<rparr>,
                               \<lparr>binding = paste_binding, queue_level = 2\<rparr>],
                    o_focus_index = 2, o_visible = True, o_root = True\<rparr>,
      s_menu_active = True, s_primary_queue = [open_url_binding, copy_binding],
      s_secondary_queue = [paste_binding],
      s_last_left_click = 1001.25, s_settings_open = False, s_ai_window = False,
      dispatched = []\<rparr>"

text \<open>The same engine after the menu was closed again.\<close>

definition closed_queued :: Engine where
  "closed_queued =
     queued_default\<lparr>s_overlay := (s_overlay queued_default)\<lparr>o_visible := False\<rparr>,
                    s_menu_active := False\<rparr>"

section \<open>Properties\<close>

subsection \<open>Auxiliary facts\<close>

lemma and_then_Returned [simp]: "and_then (Returned e) f = f e"
  by (simp add: and_then_def)

lemma and_then_Raised [simp]: "and_then (Raised err e) f = Raised err e"
  by (simp add: and_then_def)

text \<open>
  Rounding to binary64: the literal \<^verbatim>\<open>0.35\<close>, bounds on a rounded positive number, and
  the test \<^verbatim>\<open>now - last < 0.35\<close> as a comparison of reals.
\<close>

lemma round_half_even_bounds:
  "of_int \<lfloor>r\<rfloor> \<le> (of_int (round_half_even r) :: real)"
  "round_half_even r \<le> \<lfloor>r\<rfloor> + 1"
  by (simp_all add: round_half_even_def Let_def)

lemma round_half_even_less_even:
  assumes "even n"
  shows "round_half_even r < n \<longleftrightarrow> r < of_int n - 1 / 2"
proof
  assume l: "round_half_even r < n"
  show "r < of_int n - 1 / 2"
  proof (rule ccontr)
    assume "\<not> r < of_int n - 1 / 2"
    then have ge: "of_int n - 1 / 2 \<le> r" by simp
    then have "of_int (n - 1) \<le> r" by simp
    then have f: "n - 1 \<le> \<lfloor>r\<rfloor>" by (simp only: le_floor_iff)
    show False
    proof (cases "\<lfloor>r\<rfloor> = n - 1")
      case True
      then have "odd \<lfloor>r\<rfloor>" using assms by simp
      moreover have "1 / 2 \<le> r - of_int \<lfloor>r\<rfloor>" using ge True by simp
      ultimately have "round_half_even r = n"
        using True by (auto simp: round_half_even_def Let_def)
      with l show False by simp
    next
      case False
      with f have "n \<le> \<lfloor>r\<rfloor>" by simp
      moreover have "\<lfloor>r\<rfloor> \<le> round_half_even r"
        by (simp add: round_half_even_def Let_def)
      ultimately show False using l by simp
    qed
  qed
next
  assume l: "r < of_int n - 1 / 2"
  then have "r < of_int n" by simp
  then have f: "\<lfloor>r\<rfloor> < n" by (simp only: floor_less_iff)
  show "round_half_even r < n"
  proof (cases "\<lfloor>r\<rfloor> = n - 1")
    case True
    then have "r - of_int \<lfloor>r\<rfloor> < 1 / 2" using l by simp
    then show ?thesis using True by (simp add: round_half_even_def Let_def)
  next
    case False
    with f have "\<lfloor>r\<rfloor> + 1 < n" by simp
    with round_half_even_bounds(2) [of r] show ?thesis by simp
  qed
qed

lemma binary64_at:
  assumes "0 < x" and "2 powr of_int k \<le> x" and "x < 2 powr (of_int k + 1)" and "- 1022 \<le> k"
  shows "binary64 x = of_int (round_half_even (x / 2 powr of_int (k - 52))) * 2 powr of_int (k - 52)"
proof -
  have "\<lfloor>log 2 x\<rfloor> = k"
    using assms(1-3) floor_log_eq_powr_iff [of x 2 k] by simp
  then have "max \<lfloor>log 2 \<bar>x\<bar>\<rfloor> (- 1022) - 52 = k - 52"
    using assms(1,4) by simp
  then show ?thesis
    using assms(1) unfolding binary64_def Let_def by simp
qed

lemma binary64_035: "binary64 0.35 = 6305039478318694 / 2 ^ 54"
proof -
  define c :: real where "c = 0.35"
  have c: "c = 7 / 20" by (simp add: c_def)
  have p2: "(2::real) powr of_int (- 2) = 1 / 4" "(2::real) powr (of_int (- 2) + 1) = 1 / 2"
    by (simp_all add: powr_minus inverse_eq_divide)
  have p: "(2::real) powr of_int (- 2 - 52) = 1 / 2 ^ 54"
    by (simp add: powr_minus inverse_eq_divide)
  have "binary64 c = of_int (round_half_even (c / 2 powr of_int (- 2 - 52))) * 2 powr of_int (- 2 - 52)"
    by (rule binary64_at) (simp_all only: p2, simp_all add: c)
  also have "\<dots> = of_int (round_half_even (c / (1 / 2 ^ 54))) * (1 / 2 ^ 54)"
    by (simp only: p)
  also have "round_half_even (c / (1 / 2 ^ 54)) = 6305039478318694"
    by (simp add: round_half_even_def Let_def c)
  finally show ?thesis by (simp add: c_def)
qed


lemma log2_floor_bounds:
  assumes "0 < x"
  shows "2 powr of_int \<lfloor>log 2 x\<rfloor> \<le> x" and "x < 2 powr (of_int \<lfloor>log 2 x\<rfloor> + 1)"
  using assms floor_log_eq_powr_iff [of x 2 "\<lfloor>log 2 x\<rfloor>"] by simp_all

lemma binary64_zero: "binary64 0 = 0"
  by (simp add: binary64_def)

lemma binary64_nonpos:
  assumes "x < 0"
  shows "binary64 x \<le> 0"
proof -
  define e where "e = max \<lfloor>log 2 \<bar>x\<bar>\<rfloor> (- 1022) - 52"
  have p: "0 < (2::real) powr of_int e" by simp
  with assms have "x / 2 powr of_int e < 0"
    by (simp add: divide_neg_pos)
  then have "\<lfloor>x / 2 powr of_int e\<rfloor> < 0"
    by (simp only: floor_less_iff of_int_0)
  with round_half_even_bounds(2) [of "x / 2 powr of_int e"]
  have "round_half_even (x / 2 powr of_int e) \<le> 0" by linarith
  then have "(of_int (round_half_even (x / 2 powr of_int e)) :: real) \<le> 0"
    by simp
  then have "of_int (round_half_even (x / 2 powr of_int e)) * 2 powr of_int e \<le> (0::real)"
    using p by (intro mult_nonpos_nonneg) simp_all
  then show ?thesis
    using assms unfolding binary64_def Let_def e_def by simp
qed

lemma binary64_lower:
  assumes "0 < x" and "- 1022 \<le> \<lfloor>log 2 x\<rfloor>"
  shows "2 powr of_int \<lfloor>log 2 x\<rfloor> \<le> binary64 x"
proof -
  define k where "k = \<lfloor>log 2 x\<rfloor>"
  define r where "r = x / 2 powr of_int (k - 52)"
  have b: "binary64 x = of_int (round_half_even r) * 2 powr of_int (k - 52)"
    unfolding r_def k_def using assms log2_floor_bounds [OF assms(1)]
    by (intro binary64_at) simp_all
  have "2 powr of_int k / 2 powr of_int (k - 52) \<le> r"
    unfolding r_def k_def using log2_floor_bounds(1) [OF assms(1)]
    by (simp add: divide_right_mono)
  moreover have "2 powr of_int k / 2 powr of_int (k - 52) = (2::real) powr 52"
    by (simp add: powr_diff [symmetric])
  ultimately have "(2 ^ 52 :: real) \<le> r" by simp
  then have "(4503599627370496 :: real) \<le> r" by simp
  then have "(4503599627370496 :: real) \<le> of_int \<lfloor>r\<rfloor>"
    by (metis le_floor_iff of_int_le_iff of_int_numeral)
  with round_half_even_bounds(1) [of r]
  have "(4503599627370496 :: real) \<le> of_int (round_half_even r)" by linarith
  then have "(2 ^ 52 :: real) \<le> of_int (round_half_even r)" by simp
  then have "(2 ^ 52 :: real) * 2 powr of_int (k - 52)
      \<le> of_int (round_half_even r) * 2 powr of_int (k - 52)"
    by (intro mult_right_mono) simp_all
  then have A: "(2::real) powr 52 * 2 powr of_int (k - 52)
      \<le> of_int (round_half_even r) * 2 powr of_int (k - 52)"
    by simp
  have B: "(2::real) powr 52 * 2 powr of_int (k - 52) = 2 powr of_int k"
    by (simp only: powr_add [symmetric], simp)
  from A have "(2::real) powr of_int k \<le> of_int (round_half_even r) * 2 powr of_int (k - 52)"
    unfolding B .
  then show ?thesis
    unfolding b k_def .
qed

lemma binary64_upper:
  assumes "0 < x"
  shows "binary64 x \<le> 2 powr (of_int (max \<lfloor>log 2 x\<rfloor> (- 1022)) + 1)"
proof -
  define k where "k = max \<lfloor>log 2 x\<rfloor> (- 1022)"
  define r where "r = x / 2 powr of_int (k - 52)"
  have b: "binary64 x = of_int (round_half_even r) * 2 powr of_int (k - 52)"
    using assms unfolding binary64_def Let_def r_def k_def by simp
  have "x < 2 powr (of_int \<lfloor>log 2 x\<rfloor> + 1)"
    by (rule log2_floor_bounds(2) [OF assms])
  also have "\<dots> \<le> 2 powr (of_int k + 1)"
    unfolding k_def by (intro powr_mono) simp_all
  finally have "r < 2 powr (of_int k + 1) / 2 powr of_int (k - 52)"
    unfolding r_def by (simp add: divide_strict_right_mono)
  moreover have "2 powr (of_int k + 1) / 2 powr of_int (k - 52) = (2::real) powr 53"
    by (simp add: powr_diff [symmetric])
  ultimately have "r < (2 ^ 53 :: real)" by simp
  then have "r < of_int 9007199254740992" by simp
  then have "\<lfloor>r\<rfloor> < 9007199254740992" by (simp only: floor_less_iff)
  with round_half_even_bounds(2) [of r] have "round_half_even r \<le> 9007199254740992"
    by linarith
  then have "(of_int (round_half_even r) :: real) \<le> of_int 9007199254740992"
    by (simp only: of_int_le_iff)
  then have "(of_int (round_half_even r) :: real) \<le> 2 ^ 53" by simp
  then have "of_int (round_half_even r) * 2 powr of_int (k - 52)
      \<le> (2 ^ 53 :: real) * 2 powr of_int (k - 52)"
    by (intro mult_right_mono) simp_all
  then have A: "of_int (round_half_even r) * 2 powr of_int (k - 52)
      \<le> (2::real) powr 53 * 2 powr of_int (k - 52)"
    by simp
  have B: "(2::real) powr 53 * 2 powr of_int (k - 52) = 2 powr (of_int k + 1)"
    by (simp only: powr_add [symmetric], simp add: algebra_simps)
  from A have "of_int (round_half_even r) * 2 powr of_int (k - 52) \<le> (2::real) powr (of_int k + 1)"
    unfolding B .
  then show ?thesis
    unfolding b k_def .
qed

lemma double_click_test:
  "binary64 x < binary64 0.35 \<longleftrightarrow> x < window"
proof -
  have c: "binary64 (7 / 20) = 6305039478318694 / 2 ^ 54"
    using binary64_035 by simp
  consider "x < 0" | "x = 0" | "0 < x" "x < 1 / 4" | "1 / 4 \<le> x" "x < 1 / 2" | "1 / 2 \<le> x"
    by linarith
  then show ?thesis
  proof cases
    case 1
    with binary64_nonpos [of x] show ?thesis
      by (simp add: c window_def)
  next
    case 2
    then show ?thesis by (simp add: c window_def binary64_zero)
  next
    case 3
    have "log 2 x < of_int (- 2)"
      using 3 by (simp add: log_less_iff powr_minus inverse_eq_divide)
    then have "\<lfloor>log 2 x\<rfloor> < - 2" by (simp only: floor_less_iff)
    then have "max \<lfloor>log 2 x\<rfloor> (- 1022) + 1 \<le> - 2" by linarith
    then have "(of_int (max \<lfloor>log 2 x\<rfloor> (- 1022) + 1) :: real) \<le> of_int (- 2)"
      by (simp only: of_int_le_iff)
    then have "of_int (max \<lfloor>log 2 x\<rfloor> (- 1022)) + 1 \<le> (- 2 :: real)"
      by simp
    then have "(2::real) powr (of_int (max \<lfloor>log 2 x\<rfloor> (- 1022)) + 1) \<le> 2 powr (- 2)"
      by (intro powr_mono) simp_all
    with binary64_upper [OF 3(1)] have "binary64 x \<le> 1 / 4"
      by (simp add: powr_minus inverse_eq_divide)
    with 3 show ?thesis by (simp add: c window_def)
  next
    case 4
    have pos: "0 < x" using 4 by simp
    have p2: "(2::real) powr of_int (- 2) = 1 / 4" "(2::real) powr (of_int (- 2) + 1) = 1 / 2"
      by (simp_all add: powr_minus inverse_eq_divide)
    have p: "(2::real) powr of_int (- 2 - 52) = 1 / 2 ^ 54"
      by (simp add: powr_minus inverse_eq_divide)
    have h1: "2 powr of_int (- 2) \<le> x"
      unfolding p2(1) by (rule 4(1))
    have h2: "x < 2 powr (of_int (- 2) + 1)"
      unfolding p2(2) by (rule 4(2))
    have "binary64 x = of_int (round_half_even (x / 2 powr of_int (- 2 - 52))) * 2 powr of_int (- 2 - 52)"
      by (rule binary64_at [OF pos h1 h2]) simp
    then have b: "binary64 x = of_int (round_half_even (x * 2 ^ 54)) / 2 ^ 54"
      by (simp only: p) simp
    have "binary64 x < binary64 0.35 \<longleftrightarrow>
        (of_int (round_half_even (x * 2 ^ 54)) :: real) < of_int 6305039478318694"
      unfolding b by (simp add: c divide_less_cancel)
    also have "\<dots> \<longleftrightarrow> round_half_even (x * 2 ^ 54) < 6305039478318694"
      by (simp only: of_int_less_iff)
    also have "\<dots> \<longleftrightarrow> x * 2 ^ 54 < of_int 6305039478318694 - 1 / 2"
      by (rule round_half_even_less_even) simp
    also have "\<dots> \<longleftrightarrow> x < window"
      by (simp add: window_def field_simps)
    finally show ?thesis .
  next
    case 5
    have pos: "0 < x" using 5 by simp
    have "of_int (- 1) \<le> log 2 x"
      using 5 pos by (simp add: le_log_iff powr_minus inverse_eq_divide)
    then have k: "- 1 \<le> \<lfloor>log 2 x\<rfloor>" by (simp only: le_floor_iff)
    then have "(2::real) powr (- 1) \<le> 2 powr of_int \<lfloor>log 2 x\<rfloor>"
      by (intro powr_mono) simp_all
    moreover have "- 1022 \<le> \<lfloor>log 2 x\<rfloor>"
      using k by linarith
    then have "2 powr of_int \<lfloor>log 2 x\<rfloor> \<le> binary64 x"
      by (rule binary64_lower [OF pos])
    ultimately have "1 / 2 \<le> binary64 x"
      by (simp add: powr_minus inverse_eq_divide)
    with 5 show ?thesis by (simp add: c window_def)
  qed
qed

lemma coarse_window:
  assumes "x * 2 ^ 52 \<in> \<int>"
  shows "x < window \<longleftrightarrow> x < 0.35"
proof -
  from assms obtain k :: int where k: "x * 2 ^ 52 = of_int k"
    by (auto elim: Ints_cases)
  then have x: "x = of_int k / 2 ^ 52"
    by (simp add: field_simps)
  have "x < window \<longleftrightarrow> (of_int (k * 8) :: real) < of_int 12610078956637387"
    by (simp add: x window_def field_simps)
  also have "\<dots> \<longleftrightarrow> k * 8 < 12610078956637387"
    by (simp only: of_int_less_iff)
  also have "\<dots> \<longleftrightarrow> k * 20 < 31525197391593472"
    by presburger
  also have "\<dots> \<longleftrightarrow> (of_int (k * 20) :: real) < of_int 31525197391593472"
    by (simp only: of_int_less_iff)
  also have "\<dots> \<longleftrightarrow> x < 0.35"
    by (simp add: x field_simps)
  finally show ?thesis .
qed

lemma double_click_test': "binary64 x < binary64 (7 / 20) \<longleftrightarrow> x < window"
  using double_click_test [of x] by simp

lemma on_grid_zero: "on_grid 0"
  by (simp add: on_grid_def)

lemma on_grid_diff: "on_grid a \<Longrightarrow> on_grid b \<Longrightarrow> on_grid (a - b)"
  unfolding on_grid_def by (simp only: left_diff_distrib Ints_diff)

lemma grid_test:
  "on_grid a \<Longrightarrow> on_grid b \<Longrightarrow> binary64 (a - b) < binary64 0.35 \<longleftrightarrow> a - b < 0.35"
  using on_grid_diff [of a b] coarse_window [of "a - b"]
  by (simp only: double_click_test on_grid_def)

lemma binary64_on_grid:
  assumes "1 \<le> \<bar>x\<bar>"
  shows "on_grid (binary64 x)"
proof -
  have nz: "x \<noteq> 0" using assms by auto
  define k where "k = \<lfloor>log 2 \<bar>x\<bar>\<rfloor>"
  have "of_int 0 \<le> log 2 \<bar>x\<bar>"
    using assms by (simp add: le_log_iff)
  then have k0: "0 \<le> k" unfolding k_def by (simp only: le_floor_iff)
  then have m: "max k (- 1022) - 52 = k - 52" by simp
  define n where "n = round_half_even (x / 2 powr of_int (k - 52))"
  have b: "binary64 x = of_int n * 2 powr of_int (k - 52)"
    using nz unfolding binary64_def Let_def n_def k_def [symmetric] m by simp
  have "(2::real) powr of_int (k - 52) * 2 powr 52 = 2 powr of_int k"
    by (simp only: powr_add [symmetric], simp)
  moreover have "(2::real) powr of_int k = 2 ^ nat k"
    using k0 by (simp add: powr_real_of_int)
  ultimately have "binary64 x * 2 ^ 52 = of_int n * 2 ^ nat k"
    unfolding b by simp
  also have "\<dots> = of_int (n * 2 ^ nat k)" by simp
  finally show ?thesis
    unfolding on_grid_def by (simp only: Ints_of_int)
qed

text \<open>The active mode and the focused binding depend on three fields only.\<close>

lemma current_mode_frame:
  "s_config e' = s_config e \<Longrightarrow> s_current_mode_index e' = s_current_mode_index e \<Longrightarrow>
   current_mode e' = current_mode e"
  by (simp add: current_mode_def)

lemma current_focus_binding_frame:
  "s_config e' = s_config e \<Longrightarrow> s_current_mode_index e' = s_current_mode_index e \<Longrightarrow>
   s_overlay e' = s_overlay e \<Longrightarrow> current_focus_binding e' = current_focus_binding e"
  by (simp add: current_focus_binding_def current_mode_frame [of e' e] Let_def split: sum.split)

lemma left_click_focused:
  assumes "s_menu_active e" and "current_focus_binding e = Inr (Some b)"
  shows "on_click v x y Left True e =
           Returned (if binary64 (clock v - s_last_left_click e) < binary64 0.35
                     then e\<lparr>s_last_left_click := clock v,
                            s_secondary_queue := s_secondary_queue e @ [b]\<rparr>
                     else e\<lparr>s_last_left_click := clock v,
                            s_primary_queue := s_primary_queue e @ [b]\<rparr>)"
proof -
  have "current_focus_binding (e\<lparr>s_last_left_click := clock v\<rparr>) = Inr (Some b)"
    using assms(2) current_focus_binding_frame [of "e\<lparr>s_last_left_click := clock v\<rparr>" e]
    by simp
  then show ?thesis
    using assms(1) by (simp add: on_click_def handle_left_click_def Let_def)
qed

lemma left_click_unfocused:
  assumes "s_menu_active e" and "current_focus_binding e = Inr None"
  shows "on_click v x y Left True e = Returned (e\<lparr>s_last_left_click := clock v\<rparr>)"
proof -
  have "current_focus_binding (e\<lparr>s_last_left_click := clock v\<rparr>) = Inr None"
    using assms(2) current_focus_binding_frame [of "e\<lparr>s_last_left_click := clock v\<rparr>" e]
    by simp
  then show ?thesis
    using assms(1) by (simp add: on_click_def handle_left_click_def Let_def)
qed

lemma right_click_open:
  "s_menu_active e \<Longrightarrow>
   on_click v x y Right True e =
     (if s_primary_queue e \<noteq> [] then Returned (e\<lparr>s_primary_queue := butlast (s_primary_queue e)\<rparr>)
      else if s_secondary_queue e \<noteq> [] then
        Returned (e\<lparr>s_secondary_queue := butlast (s_secondary_queue e)\<rparr>)
      else Returned (e\<lparr>s_overlay := overlay_close (s_overlay e), s_menu_active := False\<rparr>))"
  by (simp add: on_click_def handle_right_click_def toggle_menu_def)

text \<open>A run of left clicks, each less than 350 ms after the one before.\<close>

lemma rapid_run:
  "s_menu_active e \<Longrightarrow> current_focus_binding e = Inr (Some b) \<Longrightarrow>
   on_grid (s_last_left_click e) \<Longrightarrow> list_all on_grid (map clock vs) \<Longrightarrow>
   rapid_after (s_last_left_click e) (map clock vs) \<Longrightarrow>
   run (left_clicks vs) e =
     Returned (e\<lparr>s_last_left_click := last (s_last_left_click e # map clock vs),
                 s_secondary_queue := s_secondary_queue e @ replicate (length vs) b\<rparr>)"
proof (induction vs arbitrary: e)
  case Nil
  then show ?case by (simp add: left_clicks_def)
next
  case (Cons v vs)
  let ?e1 = "e\<lparr>s_last_left_click := clock v, s_secondary_queue := s_secondary_queue e @ [b]\<rparr>"
  from Cons.prems have g: "on_grid (clock v)" and gs: "list_all on_grid (map clock vs)"
    by simp_all
  from Cons.prems have "clock v - s_last_left_click e < 0.35" by simp
  with grid_test [OF g Cons.prems(3)]
  have t: "binary64 (clock v - s_last_left_click e) < binary64 0.35" by blast
  from left_click_focused [OF Cons.prems(1,2), of v 0 0] t
  have step: "on_click v 0 0 Left True e = Returned ?e1"
    by (simp only: if_True)
  have a: "s_menu_active ?e1" using Cons.prems by simp
  have f: "current_focus_binding ?e1 = Inr (Some b)"
    using Cons.prems(2) current_focus_binding_frame [of ?e1 e] by simp
  have g1: "on_grid (s_last_left_click ?e1)" using g by simp
  have r: "rapid_after (s_last_left_click ?e1) (map clock vs)"
    using Cons.prems(5) by simp
  have "run (left_clicks (v # vs)) e = run (left_clicks vs) ?e1"
    using step by (simp add: left_clicks_def)
  also have "\<dots> = Returned (?e1\<lparr>s_last_left_click := last (s_last_left_click ?e1 # map clock vs),
                 s_secondary_queue := s_secondary_queue ?e1 @ replicate (length vs) b\<rparr>)"
    by (rule Cons.IH [OF a f g1 gs r])
  also have "\<dots> = Returned (e\<lparr>s_last_left_click := last (s_last_left_click e # map clock (v # vs)),
                 s_secondary_queue := s_secondary_queue e @ replicate (length (v # vs)) b\<rparr>)"
    by (simp add: replicate_app_Cons_same)
  finally show ?case .
qed

text \<open>The focus index after \<open>n\<close> steps in one direction.\<close>

lemma focus_next_index:
  "o_items ov \<noteq> [] \<Longrightarrow>
   (focus_next ^^ n) ov =
     ov\<lparr>o_focus_index := (if n = 0 then o_focus_index ov
                            else (o_focus_index ov + int n) mod int (length (o_items ov)))\<rparr>"
proof (induction n)
  case 0
  then show ?case by simp
next
  case (Suc n)
  then show ?case
    by (cases "n = 0") (simp_all add: focus_next_def mod_simps algebra_simps)
qed

lemma focus_prev_index:
  "o_items ov \<noteq> [] \<Longrightarrow>
   (focus_prev ^^ n) ov =
     ov\<lparr>o_focus_index := (if n = 0 then o_focus_index ov
                            else (o_focus_index ov - int n) mod int (length (o_items ov)))\<rparr>"
proof (induction n)
  case 0
  then show ?case by simp
next
  case (Suc n)
  then show ?case
    by (cases "n = 0") (simp_all add: focus_prev_def mod_simps algebra_simps)
qed

text \<open>The example states are what the engine reaches by opening the menu.\<close>

lemma opened_default_reachable:
  "run [(at_time 1000, Click 0 0 Middle True)] (engine_init default_config) = Returned opened_default"
  by (simp add: on_click_def toggle_menu_def current_mode_def getitem_def engine_init_def
      default_config_def default_mode_def menu_items_def overlay_open_def overlay_init_def
      opened_default_def)

lemma opened_empty_reachable:
  "run [(at_time 1000, Click 0 0 Middle True)] (engine_init empty_config) = Returned opened_empty"
  by (simp add: on_click_def toggle_menu_def current_mode_def getitem_def engine_init_def
      empty_config_def empty_mode_def menu_items_def overlay_open_def overlay_init_def
      opened_empty_def)

lemma opened_default_focus: "current_focus_binding opened_default = Inr (Some copy_binding)"
  by (simp add: current_focus_binding_def current_mode_def getitem_def opened_default_def
      default_config_def default_mode_def)

lemma opened_empty_focus: "current_focus_binding opened_empty = Inr None"
  by (simp add: current_focus_binding_def current_mode_def getitem_def opened_empty_def
      empty_config_def empty_mode_def)

text \<open>
  The focus index stays a position in the displayed list, in every state that a run of
  events reaches from the initial state.
\<close>

lemma focus_valid_open: "focus_valid (overlay_open items ov)"
  by (simp add: focus_valid_def overlay_open_def)

lemma focus_valid_close: "focus_valid ov \<Longrightarrow> focus_valid (overlay_close ov)"
  by (simp add: focus_valid_def overlay_close_def)

lemma focus_valid_next: "focus_valid ov \<Longrightarrow> focus_valid (focus_next ov)"
  by (simp add: focus_valid_def focus_next_def)

lemma focus_valid_prev: "focus_valid ov \<Longrightarrow> focus_valid (focus_prev ov)"
  by (simp add: focus_valid_def focus_prev_def)

lemma dispatch_all_overlay: "s_overlay (state_of (dispatch_all reg bs e)) = s_overlay e"
proof (induction bs arbitrary: e)
  case Nil
  then show ?case by simp
next
  case (Cons b bs)
  show ?case
  proof (cases "registry_execute reg (ident b) (params b) e")
    case (Returned e1)
    then have "s_overlay e1 = s_overlay e"
      by (auto simp: registry_execute_def Let_def split: option.splits)
    with Returned Cons.IH [of e1] show ?thesis by simp
  next
    case (Raised err e1)
    then have "s_overlay e1 = s_overlay e"
      by (auto simp: registry_execute_def Let_def split: option.splits)
    with Raised show ?thesis by simp
  qed
qed

lemma toggle_menu_focus_valid:
  "focus_valid (s_overlay e) \<Longrightarrow> focus_valid (s_overlay (state_of (toggle_menu fc e)))"
  by (simp add: toggle_menu_def focus_valid_open focus_valid_close split: sum.split)

lemma execute_queues_focus_valid:
  assumes "focus_valid (s_overlay e)"
  shows "focus_valid (s_overlay (state_of (execute_queues v e)))"
proof (cases "dispatch_all (registry v) (s_primary_queue e) e")
  case (Returned e1)
  with dispatch_all_overlay [of "registry v" "s_primary_queue e" e]
  have o1: "s_overlay e1 = s_overlay e" by simp
  show ?thesis
  proof (cases "dispatch_all (registry v) (s_secondary_queue e1) e1")
    case r2: (Returned e2)
    with dispatch_all_overlay [of "registry v" "s_secondary_queue e1" e1] o1
    have "s_overlay e2 = s_overlay e" by simp
    with assms have "focus_valid (s_overlay e2)" by simp
    then show ?thesis
      using Returned r2 by (simp add: execute_queues_def toggle_menu_focus_valid)
  next
    case r2: (Raised err e2)
    with dispatch_all_overlay [of "registry v" "s_secondary_queue e1" e1] o1
    have "s_overlay e2 = s_overlay e" by simp
    then show ?thesis
      using Returned r2 assms by (simp add: execute_queues_def)
  qed
next
  case (Raised err e1)
  with dispatch_all_overlay [of "registry v" "s_primary_queue e" e]
  have "s_overlay e1 = s_overlay e" by simp
  then show ?thesis
    using Raised assms by (simp add: execute_queues_def)
qed

lemma handle_focus_valid:
  assumes "focus_valid (s_overlay e)"
  shows "focus_valid (s_overlay (state_of (handle v ev e)))"
proof (cases ev)
  case (Click x y button pressed)
  have l: "focus_valid (s_overlay (state_of (handle_left_click v e)))"
    using assms
    by (simp add: handle_left_click_def Let_def split: sum.split option.split)
  have r: "focus_valid (s_overlay (state_of (handle_right_click e)))"
    using assms by (simp add: handle_right_click_def toggle_menu_focus_valid)
  have s: "focus_valid (s_overlay (state_of (open_settings v e)))"
    using assms by (simp add: open_settings_def)
  show ?thesis
    using Click assms l r s
    by (simp add: on_click_def toggle_menu_focus_valid execute_queues_focus_valid)
next
  case (Scroll x y dx dy)
  then show ?thesis
    using assms by (simp add: on_scroll_def focus_valid_next focus_valid_prev)
next
  case (KeyPress key)
  have t: "s_overlay (state_of (toggle_ai_window e1)) = s_overlay e1" for e1
    by (simp add: toggle_ai_window_def)
  show ?thesis
  proof (cases "key = Esc \<and> s_menu_active e")
    case True
    then show ?thesis
      using KeyPress assms
      by (simp add: on_key_press_def toggle_menu_def focus_valid_close)
  next
    case False
    then show ?thesis
      using KeyPress assms by (auto simp: on_key_press_def t)
  qed
next
  case SelectCurrent
  then show ?thesis
    using assms by (simp add: select_current_def handle_select_def split: sum.split)
next
  case Cancel
  then show ?thesis
    using assms by (simp add: cancel_def handle_cancel_def toggle_menu_focus_valid)
qed

lemma run_focus_valid_from:
  "focus_valid (s_overlay e) \<Longrightarrow> focus_valid (s_overlay (state_of (run es e)))"
proof (induction es arbitrary: e)
  case Nil
  then show ?case by simp
next
  case (Cons ve es)
  show ?case
  proof (cases "handle (fst ve) (snd ve) e")
    case (Returned e1)
    with handle_focus_valid [OF Cons.prems, of "fst ve" "snd ve"]
    have "focus_valid (s_overlay e1)" by simp
    from Cons.IH [OF this] Returned show ?thesis by simp
  next
    case (Raised err e1)
    with handle_focus_valid [OF Cons.prems, of "fst ve" "snd ve"]
    show ?thesis by simp
  qed
qed

lemma run_focus_valid: "focus_valid (s_overlay (state_of (run es (engine_init cfg))))"
  by (rule run_focus_valid_from) (simp add: engine_init_def overlay_init_def focus_valid_def)

text \<open>
  Dispatching a queue: all calls return, or the first failing call ends the iteration.
  The two iterations together behave like one over the primary queue followed by the
  secondary queue.
\<close>

lemma registry_execute_result:
  "registry_execute reg (ident b) (params b) e =
     (case dispatch_result reg b of
        None \<Rightarrow> Returned (e\<lparr>dispatched := dispatched e @ [call_of b]\<rparr>)
      | Some err \<Rightarrow> Raised err (e\<lparr>dispatched := dispatched e @ [call_of b]\<rparr>))"
  by (simp add: registry_execute_def dispatch_result_def call_of_def Let_def split: option.split)

lemma dispatch_all_ok:
  "list_all (\<lambda>b. dispatch_result reg b = None) bs \<Longrightarrow>
   dispatch_all reg bs e = Returned (e\<lparr>dispatched := dispatched e @ map call_of bs\<rparr>)"
proof (induction bs arbitrary: e)
  case Nil
  then show ?case by simp
next
  case (Cons b bs)
  then show ?case by (simp add: registry_execute_result)
qed

lemma dispatch_all_fail:
  "list_all (\<lambda>b. dispatch_result reg b = None) pre \<Longrightarrow> dispatch_result reg b = Some err \<Longrightarrow>
   dispatch_all reg (pre @ b # post) e =
     Raised err (e\<lparr>dispatched := dispatched e @ map call_of pre @ [call_of b]\<rparr>)"
proof (induction pre arbitrary: e)
  case Nil
  then show ?case by (simp add: registry_execute_result)
next
  case (Cons a pre)
  then show ?case by (simp add: registry_execute_result)
qed

lemma dispatch_all_append:
  "dispatch_all reg (xs @ ys) e = and_then (dispatch_all reg xs e) (dispatch_all reg ys)"
proof (induction xs arbitrary: e)
  case Nil
  then show ?case by simp
next
  case (Cons x xs)
  show ?case
    by (cases "registry_execute reg (ident x) (params x) e") (simp_all add: Cons.IH)
qed

lemma dispatch_all_queues:
  "s_secondary_queue (state_of (dispatch_all reg bs e)) = s_secondary_queue e"
proof (induction bs arbitrary: e)
  case Nil
  then show ?case by simp
next
  case (Cons b bs)
  show ?case
    by (cases "dispatch_result reg b") (simp_all add: registry_execute_result Cons.IH)
qed

lemma execute_queues_concat:
  "execute_queues v e =
     and_then (dispatch_all (registry v) (s_primary_queue e @ s_secondary_queue e) e)
       (toggle_menu True)"
proof (cases "dispatch_all (registry v) (s_primary_queue e) e")
  case (Returned e1)
  with dispatch_all_queues [of "registry v" "s_primary_queue e" e]
  have "s_secondary_queue e1 = s_secondary_queue e" by simp
  with Returned show ?thesis
    by (simp add: execute_queues_def dispatch_all_append)
next
  case (Raised err e1)
  then show ?thesis
    by (simp add: execute_queues_def dispatch_all_append)
qed

text \<open>Evaluation of the examples, runs, the menu toggle and the clamped index.\<close>

lemmas model_defs = on_click_def on_scroll_def on_key_press_def toggle_menu_def current_mode_def
  getitem_def engine_init_def menu_items_def overlay_open_def overlay_close_def overlay_init_def
  handle_left_click_def handle_right_click_def current_focus_binding_def focus_next_def
  focus_prev_def execute_queues_def registry_execute_def double_click_test' window_def

lemmas example_defs = default_config_def default_mode_def faulty_config_def faulty_mode_def
  links_config_def links_mode_def empty_config_def empty_mode_def at_time_def
  example_registry_def

lemma queued_default_reachable:
  "run queue_events (engine_init default_config) = Returned queued_default"
  by (simp add: queue_events_def queued_default_def opened_default_def model_defs example_defs Let_def)

lemma queued_faulty_reachable:
  "run queue_events (engine_init faulty_config) = Returned queued_faulty"
  by (simp add: queue_events_def queued_faulty_def model_defs example_defs Let_def)

lemma queued_links_reachable:
  "run queue_events (engine_init links_config) = Returned queued_links"
  by (simp add: queue_events_def queued_links_def model_defs example_defs Let_def)

lemma run_append:
  "run (es @ fs) e = and_then (run es e) (run fs)"
proof (induction es arbitrary: e)
  case Nil
  then show ?case by simp
next
  case (Cons ve es)
  show ?case
    by (cases "handle (fst ve) (snd ve) e") (simp_all add: Cons.IH)
qed

lemma toggle_close:
  "s_menu_active e \<Longrightarrow>
   toggle_menu fc e = Returned (e\<lparr>s_overlay := overlay_close (s_overlay e), s_menu_active := False\<rparr>)"
  by (simp add: toggle_menu_def)

lemma toggle_force:
  "toggle_menu True e = Returned (e\<lparr>s_overlay := overlay_close (s_overlay e), s_menu_active := False\<rparr>)"
  by (simp add: toggle_menu_def)

lemma toggle_open:
  "\<not> s_menu_active e \<Longrightarrow> current_mode e = Inr m \<Longrightarrow>
   toggle_menu False e =
     Returned (e\<lparr>s_overlay := (s_overlay e)\<lparr>o_items :=
                       map (\<lambda>b. \<lparr>binding = b, queue_level = 1\<rparr>) (primary_queue m)
                       @ map (\<lambda>b. \<lparr>binding = b, queue_level = 2\<rparr>) (secondary_queue m),
                     o_focus_index := 0, o_root := True, o_visible := True\<rparr>,
                 s_primary_queue := [], s_secondary_queue := [], s_menu_active := True\<rparr>)"
  by (simp add: toggle_menu_def menu_items_def overlay_open_def)

lemma clamp_in_range:
  "xs \<noteq> [] \<Longrightarrow>
   0 \<le> max 0 (min (int (length xs) - 1) i) \<and> max 0 (min (int (length xs) - 1) i) < int (length xs)"
  by (cases xs) (simp_all add: max_def min_def)

lemma getitem_clamped:
  "xs \<noteq> [] \<Longrightarrow>
   getitem xs (max 0 (min (int (length xs) - 1) i)) = Inr (xs ! nat (max 0 (min (int (length xs) - 1) i)))"
proof -
  assume "xs \<noteq> []"
  then have "0 \<le> max 0 (min (int (length xs) - 1) i) \<and>
             max 0 (min (int (length xs) - 1) i) < int (length xs)"
    by (rule clamp_in_range)
  then show ?thesis
    unfolding getitem_def by (rule if_P)
qed

lemma focus_nonempty:
  assumes "current_mode e = Inr m" and "primary_queue m @ secondary_queue m \<noteq> []"
  shows "current_focus_binding e =
           Inr (Some ((primary_queue m @ secondary_queue m)
                  ! nat (max 0 (min (int (length (primary_queue m @ secondary_queue m)) - 1)
                                    (o_focus_index (s_overlay e))))))"
  unfolding current_focus_binding_def Let_def
  by (simp only: assms getitem_clamped [OF assms(2)] sum.case if_False)

lemma focus_empty:
  "current_mode e = Inr m \<Longrightarrow> primary_queue m @ secondary_queue m = [] \<Longrightarrow>
   current_focus_binding e = Inr None"
  by (simp add: current_focus_binding_def)

text \<open>Whatever the calls do, those made form an initial segment of the two queues in order.\<close>

lemma dispatch_all_prefix:
  "\<exists>n. dispatched (state_of (dispatch_all reg bs e)) = dispatched e @ take n (map call_of bs)"
proof (induction bs arbitrary: e)
  case Nil
  then show ?case by simp
next
  case (Cons b bs)
  let ?e1 = "e\<lparr>dispatched := dispatched e @ [call_of b]\<rparr>"
  show ?case
  proof (cases "dispatch_result reg b")
    case None
    from Cons.IH [of ?e1] obtain n where
      "dispatched (state_of (dispatch_all reg bs ?e1)) = dispatched ?e1 @ take n (map call_of bs)"
      by blast
    then have "dispatched (state_of (dispatch_all reg (b # bs) e))
        = dispatched e @ take (Suc n) (map call_of (b # bs))"
      using None by (simp add: registry_execute_result)
    then show ?thesis by blast
  next
    case (Some err)
    then have "dispatched (state_of (dispatch_all reg (b # bs) e))
        = dispatched e @ take (Suc 0) (map call_of (b # bs))"
      by (simp add: registry_execute_result)
    then show ?thesis by blast
  qed
qed

lemma execute_queues_prefix:
  "\<exists>n. dispatched (state_of (execute_queues v e)) =
         dispatched e @ take n (map call_of (s_primary_queue e @ s_secondary_queue e))"
proof -
  let ?r = "dispatch_all (registry v) (s_primary_queue e @ s_secondary_queue e) e"
  have "dispatched (state_of (execute_queues v e)) = dispatched (state_of ?r)"
    by (cases ?r) (simp_all add: execute_queues_concat toggle_force)
  then show ?thesis
    using dispatch_all_prefix [of "registry v" "s_primary_queue e @ s_secondary_queue e" e]
    by simp
qed

text \<open>A click, a double click and an undo; a click after the settings editor ran.\<close>

lemma click_double_click_undo:
  assumes "s_menu_active e" and "current_focus_binding e = Inr (Some b)"
    and "\<not> binary64 (clock v1 - s_last_left_click e) < binary64 0.35"
    and "binary64 (clock v2 - clock v1) < binary64 0.35"
  shows "run [(v1, Click x y Left True), (v2, Click x y Left True), (v, Click x y Right True)] e =
           Returned (e\<lparr>s_last_left_click := clock v2,
                       s_secondary_queue := s_secondary_queue e @ [b]\<rparr>)"
proof -
  let ?e1 = "e\<lparr>s_last_left_click := clock v1, s_primary_queue := s_primary_queue e @ [b]\<rparr>"
  let ?e2 = "?e1\<lparr>s_last_left_click := clock v2, s_secondary_queue := s_secondary_queue ?e1 @ [b]\<rparr>"
  from assms have c1: "on_click v1 x y Left True e = Returned ?e1"
    by (simp add: left_click_focused)
  have a1: "s_menu_active ?e1" using assms by simp
  have f1: "current_focus_binding ?e1 = Inr (Some b)"
    using assms(2) current_focus_binding_frame [of ?e1 e] by simp
  from assms(4) have c2: "on_click v2 x y Left True ?e1 = Returned ?e2"
    by (simp add: left_click_focused [OF a1 f1])
  have a2: "s_menu_active ?e2" using assms by simp
  have c3: "on_click v x y Right True ?e2 =
      Returned (e\<lparr>s_last_left_click := clock v2, s_secondary_queue := s_secondary_queue e @ [b]\<rparr>)"
    using right_click_open [OF a2, of v x y] by simp
  show ?thesis
    using c3 by (simp add: c1 c2)
qed

lemma click_after_settings:
  assumes "s_menu_active e" and "current_focus_binding e = Inr None"
    and "\<not> s_settings_open e"
    and "current_focus_binding (e\<lparr>s_config := edited u\<rparr>) = Inr (Some b)"
  shows "run [(v, Click x y Left True), (u, Click x y X1 True), (w, Click x y Left True)] e =
           Returned (if binary64 (clock w - clock v) < binary64 0.35
                     then e\<lparr>s_config := edited u, s_last_left_click := clock w,
                            s_secondary_queue := s_secondary_queue e @ [b]\<rparr>
                     else e\<lparr>s_config := edited u, s_last_left_click := clock w,
                            s_primary_queue := s_primary_queue e @ [b]\<rparr>)"
proof -
  have c1: "on_click v x y Left True e = Returned (e\<lparr>s_last_left_click := clock v\<rparr>)"
    using assms(1,2) by (rule left_click_unfocused)
  let ?e2 = "e\<lparr>s_last_left_click := clock v, s_config := edited u\<rparr>"
  have c2: "on_click u x y X1 True (e\<lparr>s_last_left_click := clock v\<rparr>) = Returned ?e2"
    using assms(1,3) by (simp add: on_click_def open_settings_def)
  have a2: "s_menu_active ?e2" using assms(1) by simp
  have f2: "current_focus_binding ?e2 = Inr (Some b)"
    using assms(4) current_focus_binding_frame [of ?e2 "e\<lparr>s_config := edited u\<rparr>"] by simp
  from left_click_focused [OF a2 f2, of w x y]
  show ?thesis
    using c2 by (simp add: c1)
qed

subsection \<open>Batch execution\<close>

text \<open>
  Claim C1 says that a batch execute dispatches every binding of the primary queue,
  then every binding of the secondary queue, and then closes the menu. This holds only
  when every call returns: \<^verbatim>\<open>_execute_queues\<close> has no exception handler. With
  \<open>open_url\<close> (without its \<open>url\<close> parameter) and \<open>copy\<close> in the primary queue and \<open>paste\<close>
  in the secondary queue, the handler of \<open>open_url\<close> raises \<^verbatim>\<open>ValueError\<close>: \<open>copy\<close> and
  \<open>paste\<close> are never passed to the registry, and no forced close follows.
\<close>

theorem batch_execute_incomplete_counterexample:
  "on_click (at_time 1002) 0 0 X2 True queued_links =
     Raised (ValueError ''url parameter required'')
       (queued_links\<lparr>dispatched := [(''open_url'', [])]\<rparr>) \<and>
   s_primary_queue queued_links = [open_url_binding, copy_binding] \<and>
   s_secondary_queue queued_links = [paste_binding] \<and>
   call_of copy_binding \<notin> set [(''open_url'', [])] \<and>
   call_of paste_binding \<notin> set [(''open_url'', [])] \<and>
   s_menu_active queued_links"
  by (simp add: queued_links_def model_defs example_defs call_of_def copy_binding_def
      paste_binding_def open_url_binding_def open_url_handler_def Let_def)

text \<open>
  Claim C1, amended. When the batch-execute button (\<open>X2\<close>) is pressed while the menu is
  open, and every call to the registry returns, the calls made are: one per binding of
  the primary queue, in queue order, then one per binding of the secondary queue, in
  queue order (\<open>dispatched\<close> grows by exactly these calls). Afterwards the menu is
  force-closed: the overlay is hidden and the menu-open flag cleared, and both queues
  are as they were. Whether or not a call raises, the calls made are an initial segment
  of that sequence, so no binding is ever dispatched out of order (second conjunct);
  what a call that raises does is the subject of claim C5.
\<close>

theorem batch_execute_order:
  assumes "s_menu_active e"
  shows
    "((\<forall>b \<in> set (s_primary_queue e @ s_secondary_queue e). dispatch_result (registry v) b = None) \<longrightarrow>
        on_click v x y X2 True e =
          Returned (e\<lparr>dispatched := dispatched e @ map call_of (s_primary_queue e)
                                     @ map call_of (s_secondary_queue e),
                      s_overlay := overlay_close (s_overlay e),
                      s_menu_active := False\<rparr>)) \<and>
     (\<exists>n. dispatched (state_of (on_click v x y X2 True e)) =
            dispatched e @ take n (map call_of (s_primary_queue e) @ map call_of (s_secondary_queue e)))"
proof (intro conjI impI)
  assume "\<forall>b \<in> set (s_primary_queue e @ s_secondary_queue e). dispatch_result (registry v) b = None"
  then have "list_all (\<lambda>b. dispatch_result (registry v) b = None) (s_primary_queue e @ s_secondary_queue e)"
    by (simp only: list_all_iff)
  from dispatch_all_ok [OF this]
  have "execute_queues v e =
      toggle_menu True (e\<lparr>dispatched := dispatched e
          @ map call_of (s_primary_queue e @ s_secondary_queue e)\<rparr>)"
    by (simp add: execute_queues_concat)
  then show "on_click v x y X2 True e =
          Returned (e\<lparr>dispatched := dispatched e @ map call_of (s_primary_queue e)
                                     @ map call_of (s_secondary_queue e),
                      s_overlay := overlay_close (s_overlay e),
                      s_menu_active := False\<rparr>)"
    using assms by (simp add: on_click_def toggle_menu_def)
next
  show "\<exists>n. dispatched (state_of (on_click v x y X2 True e)) =
            dispatched e @ take n (map call_of (s_primary_queue e) @ map call_of (s_secondary_queue e))"
    using assms execute_queues_prefix [of v e] by (simp add: on_click_def)
qed

text \<open>
  With \<open>copy\<close> and \<open>paste\<close> in the primary queue and \<open>cut\<close> in the secondary queue the
  registry is called with \<open>copy\<close>, \<open>paste\<close>, \<open>cut\<close>, in this order.
\<close>

theorem batch_execute_order_witness:
  "on_click (at_time 1002) 0 0 X2 True queued_default =
     Returned (queued_default\<lparr>dispatched := [(''copy'', []), (''paste'', []), (''cut'', [])],
                 s_overlay := (s_overlay queued_default)\<lparr>o_visible := False\<rparr>,
                 s_menu_active := False\<rparr>)"
proof -
  have a: "s_menu_active queued_default"
    by (simp add: queued_default_def opened_default_def)
  have q: "s_primary_queue queued_default @ s_secondary_queue queued_default
           = [copy_binding, paste_binding, cut_binding]"
    by (simp add: queued_default_def)
  have h: "\<forall>b \<in> set (s_primary_queue queued_default @ s_secondary_queue queued_default).
             dispatch_result (registry (at_time 1002)) b = None"
    unfolding q
    by (simp add: dispatch_result_def at_time_def example_registry_def copy_binding_def
        paste_binding_def cut_binding_def)
  have d: "dispatched queued_default = []"
    by (simp add: queued_default_def opened_default_def)
  have c: "map call_of (s_primary_queue queued_default) @ map call_of (s_secondary_queue queued_default)
           = [(''copy'', []), (''paste'', []), (''cut'', [])]"
    by (simp add: queued_default_def call_of_def copy_binding_def paste_binding_def cut_binding_def)
  from batch_execute_order [OF a, of "at_time 1002" 0 0] h
  have "on_click (at_time 1002) 0 0 X2 True queued_default =
          Returned (queued_default\<lparr>dispatched := dispatched queued_default
                        @ map call_of (s_primary_queue queued_default)
                        @ map call_of (s_secondary_queue queued_default),
                      s_overlay := overlay_close (s_overlay queued_default),
                      s_menu_active := False\<rparr>)"
    by blast
  then show ?thesis
    unfolding d c overlay_close_def by simp
qed

subsection \<open>Left clicks: primary and secondary selection\<close>

text \<open>
  Claim C2 says that a left click on the open menu is measured against the left click
  immediately before it, and goes to the secondary queue when it comes less than 350 ms
  after that one. The engine measures against its stored time stamp, which only left
  clicks on an open menu set. A left click at 2000 s on the closed menu is ignored; the
  menu is opened; the left click at 2000.25 s, a quarter of a second after the preceding
  left click, goes to the primary queue. Also, the test is made in double precision:
  after a click at time 0.0 a click at the binary64 number \<^verbatim>\<open>0.35\<close>, which is
  6305039478318694 / 2 ^ 54 and less than 350 ms later, goes to the primary queue.
\<close>

theorem closed_menu_click_counterexample:
  "run [(at_time 2000, Click 0 0 Left True), (at_time 2000.125, Click 0 0 Middle True),
        (at_time 2000.25, Click 0 0 Left True)] (engine_init default_config) =
     Returned (opened_default\<lparr>s_last_left_click := 2000.25,
                 s_primary_queue := [copy_binding]\<rparr>) \<and>
   clock (at_time 2000.25) - clock (at_time 2000) < 0.35 \<and>
   run [(at_time 0, Click 0 0 Left True),
        (at_time (6305039478318694 / 2 ^ 54), Click 0 0 Left True)] opened_default =
     Returned (opened_default\<lparr>s_last_left_click := 6305039478318694 / 2 ^ 54,
                 s_primary_queue := [copy_binding],
                 s_secondary_queue := [copy_binding]\<rparr>) \<and>
   clock (at_time (6305039478318694 / 2 ^ 54)) - clock (at_time 0) < 0.35"
  by (simp add: opened_default_def model_defs example_defs Let_def)

text \<open>
  Claim C2, amended. Let the menu be open and a binding \<open>b\<close> be focused. A left click is
  measured against the engine's time stamp \<open>s_last_left_click\<close>: the time of the last left
  click that arrived while the menu was open (0.0 before the first one; a left click
  while the menu is closed changes nothing, last conjunct). The click appends \<open>b\<close> to the
  secondary queue when the double-precision test \<^verbatim>\<open>now - last < 0.35\<close> holds and to the
  primary queue otherwise (first conjunct). For time stamps on the grid, which all
  readings of the system clock are, that is: less than 350 ms after the time stamp to
  the secondary queue, 350 ms or more to the primary queue (second and third conjunct).
  Either way the click's own time becomes the new time stamp, so the next click is
  measured against it, whichever queue the earlier click went to (fourth conjunct: two
  clicks in a row, the first of either kind). In a run of clicks, each less than 350 ms
  after the one before, every click after the first goes to the secondary queue (fifth
  conjunct).
\<close>

theorem left_click_window:
  assumes "s_menu_active e" and "current_focus_binding e = Inr (Some b)"
  shows
    "on_click v x y Left True e =
       Returned (if binary64 (clock v - s_last_left_click e) < binary64 0.35
                 then e\<lparr>s_last_left_click := clock v,
                        s_secondary_queue := s_secondary_queue e @ [b]\<rparr>
                 else e\<lparr>s_last_left_click := clock v,
                        s_primary_queue := s_primary_queue e @ [b]\<rparr>) \<and>
     (on_grid (clock v) \<and> on_grid (s_last_left_click e) \<and>
      clock v - s_last_left_click e < 0.35 \<longrightarrow>
        on_click v x y Left True e =
          Returned (e\<lparr>s_last_left_click := clock v,
                      s_secondary_queue := s_secondary_queue e @ [b]\<rparr>)) \<and>
     (on_grid (clock v) \<and> on_grid (s_last_left_click e) \<and>
      0.35 \<le> clock v - s_last_left_click e \<longrightarrow>
        on_click v x y Left True e =
          Returned (e\<lparr>s_last_left_click := clock v,
                      s_primary_queue := s_primary_queue e @ [b]\<rparr>)) \<and>
     (on_grid (clock v) \<and> on_grid (clock w) \<longrightarrow>
        run [(v, Click x y Left True), (w, Click x y Left True)] e =
          and_then (on_click v x y Left True e)
            (\<lambda>e1. Returned (if clock w - clock v < 0.35
                            then e1\<lparr>s_last_left_click := clock w,
                                    s_secondary_queue := s_secondary_queue e1 @ [b]\<rparr>
                            else e1\<lparr>s_last_left_click := clock w,
                                    s_primary_queue := s_primary_queue e1 @ [b]\<rparr>))) \<and>
     (on_grid (clock v) \<and> list_all on_grid (map clock ws) \<and>
      rapid_after (clock v) (map clock ws) \<longrightarrow>
        run (left_clicks (v # ws)) e =
          and_then (on_click v 0 0 Left True e)
            (\<lambda>e1. Returned (e1\<lparr>s_last_left_click := last (clock v # map clock ws),
                                s_secondary_queue :=
                                  s_secondary_queue e1 @ replicate (length ws) b\<rparr>))) \<and>
     (\<not> s_menu_active c \<longrightarrow> on_click v x y Left True c = Returned c)"
proof -
  define e1 where "e1 = (if binary64 (clock v - s_last_left_click e) < binary64 0.35
                     then e\<lparr>s_last_left_click := clock v,
                            s_secondary_queue := s_secondary_queue e @ [b]\<rparr>
                     else e\<lparr>s_last_left_click := clock v,
                            s_primary_queue := s_primary_queue e @ [b]\<rparr>)"
  have first: "on_click v x' y' Left True e = Returned e1" for x' y'
    unfolding e1_def using assms by (rule left_click_focused)
  have a1: "s_menu_active e1"
    using assms(1) by (simp add: e1_def)
  have f1: "current_focus_binding e1 = Inr (Some b)"
    using assms(2) current_focus_binding_frame [of e1 e] by (simp add: e1_def)
  have t1: "s_last_left_click e1 = clock v"
    by (simp add: e1_def)
  have second: "on_click w x y Left True e1 =
      Returned (if binary64 (clock w - clock v) < binary64 0.35
                then e1\<lparr>s_last_left_click := clock w,
                        s_secondary_queue := s_secondary_queue e1 @ [b]\<rparr>
                else e1\<lparr>s_last_left_click := clock w,
                        s_primary_queue := s_primary_queue e1 @ [b]\<rparr>)"
    using left_click_focused [OF a1 f1, of w x y] by (simp only: t1)
  have p0: "on_click v x y Left True e =
       Returned (if binary64 (clock v - s_last_left_click e) < binary64 0.35
                 then e\<lparr>s_last_left_click := clock v,
                        s_secondary_queue := s_secondary_queue e @ [b]\<rparr>
                 else e\<lparr>s_last_left_click := clock v,
                        s_primary_queue := s_primary_queue e @ [b]\<rparr>)"
    using first [of x y] by (simp only: e1_def)
  have p1: "on_grid (clock v) \<and> on_grid (s_last_left_click e) \<and>
      clock v - s_last_left_click e < 0.35 \<longrightarrow>
        on_click v x y Left True e =
          Returned (e\<lparr>s_last_left_click := clock v,
                      s_secondary_queue := s_secondary_queue e @ [b]\<rparr>)"
  proof
    assume h: "on_grid (clock v) \<and> on_grid (s_last_left_click e) \<and>
      clock v - s_last_left_click e < 0.35"
    with grid_test [of "clock v" "s_last_left_click e"]
    have "binary64 (clock v - s_last_left_click e) < binary64 0.35" by blast
    with p0 show "on_click v x y Left True e =
          Returned (e\<lparr>s_last_left_click := clock v,
                      s_secondary_queue := s_secondary_queue e @ [b]\<rparr>)"
      by (simp only: if_True)
  qed
  have p2: "on_grid (clock v) \<and> on_grid (s_last_left_click e) \<and>
      0.35 \<le> clock v - s_last_left_click e \<longrightarrow>
        on_click v x y Left True e =
          Returned (e\<lparr>s_last_left_click := clock v,
                      s_primary_queue := s_primary_queue e @ [b]\<rparr>)"
  proof
    assume h: "on_grid (clock v) \<and> on_grid (s_last_left_click e) \<and>
      0.35 \<le> clock v - s_last_left_click e"
    then have "\<not> clock v - s_last_left_click e < 0.35" by simp
    with h grid_test [of "clock v" "s_last_left_click e"]
    have "\<not> binary64 (clock v - s_last_left_click e) < binary64 0.35" by blast
    with p0 show "on_click v x y Left True e =
          Returned (e\<lparr>s_last_left_click := clock v,
                      s_primary_queue := s_primary_queue e @ [b]\<rparr>)"
      by (simp only: if_False)
  qed
  have p3: "on_grid (clock v) \<and> on_grid (clock w) \<longrightarrow>
        run [(v, Click x y Left True), (w, Click x y Left True)] e =
          and_then (on_click v x y Left True e)
            (\<lambda>e1. Returned (if clock w - clock v < 0.35
                            then e1\<lparr>s_last_left_click := clock w,
                                    s_secondary_queue := s_secondary_queue e1 @ [b]\<rparr>
                            else e1\<lparr>s_last_left_click := clock w,
                                    s_primary_queue := s_primary_queue e1 @ [b]\<rparr>))"
  proof
    assume "on_grid (clock v) \<and> on_grid (clock w)"
    with grid_test [of "clock w" "clock v"]
    have "binary64 (clock w - clock v) < binary64 0.35 \<longleftrightarrow> clock w - clock v < 0.35"
      by blast
    with second show "run [(v, Click x y Left True), (w, Click x y Left True)] e =
          and_then (on_click v x y Left True e)
            (\<lambda>e1. Returned (if clock w - clock v < 0.35
                            then e1\<lparr>s_last_left_click := clock w,
                                    s_secondary_queue := s_secondary_queue e1 @ [b]\<rparr>
                            else e1\<lparr>s_last_left_click := clock w,
                                    s_primary_queue := s_primary_queue e1 @ [b]\<rparr>))"
      by (simp add: first)
  qed
  have p4: "on_grid (clock v) \<and> list_all on_grid (map clock ws) \<and>
      rapid_after (clock v) (map clock ws) \<longrightarrow>
        run (left_clicks (v # ws)) e =
          and_then (on_click v 0 0 Left True e)
            (\<lambda>e1. Returned (e1\<lparr>s_last_left_click := last (clock v # map clock ws),
                                s_secondary_queue :=
                                  s_secondary_queue e1 @ replicate (length ws) b\<rparr>))"
  proof
    assume h: "on_grid (clock v) \<and> list_all on_grid (map clock ws) \<and>
      rapid_after (clock v) (map clock ws)"
    then have g: "on_grid (s_last_left_click e1)"
      and gs: "list_all on_grid (map clock ws)"
      and r: "rapid_after (s_last_left_click e1) (map clock ws)"
      by (simp_all only: t1)
    from rapid_run [OF a1 f1 g gs r]
    show "run (left_clicks (v # ws)) e =
          and_then (on_click v 0 0 Left True e)
            (\<lambda>e1. Returned (e1\<lparr>s_last_left_click := last (clock v # map clock ws),
                                s_secondary_queue :=
                                  s_secondary_queue e1 @ replicate (length ws) b\<rparr>))"
      by (simp add: first t1 left_clicks_def)
  qed
  have p5: "\<not> s_menu_active c \<longrightarrow> on_click v x y Left True c = Returned c"
    by (simp add: on_click_def)
  from p0 p1 p2 p3 p4 p5 show ?thesis by blast
qed

text \<open>
  Three clicks on the freshly opened menu, at 1000 s, 1000.125 s and 1000.25 s: the
  first goes to the primary queue, the second and the third to the secondary queue. A
  click on the closed menu is not recorded.
\<close>

theorem left_click_window_witness:
  "run (left_clicks [at_time 1000, at_time 1000.125, at_time 1000.25]) opened_default =
     Returned (opened_default\<lparr>s_last_left_click := 1000.25,
                 s_primary_queue := [copy_binding],
                 s_secondary_queue := [copy_binding, copy_binding]\<rparr>) \<and>
   run [(at_time 1000, Click 0 0 Left True), (at_time 1000.125, Click 0 0 Left True)]
       opened_default =
     Returned (opened_default\<lparr>s_last_left_click := 1000.125,
                 s_primary_queue := [copy_binding],
                 s_secondary_queue := [copy_binding]\<rparr>) \<and>
   on_click (at_time 1000) 0 0 Left True closed_queued = Returned closed_queued"
proof -
  have a: "s_menu_active opened_default"
    by (simp add: opened_default_def)
  have c: "\<not> s_menu_active closed_queued"
    by (simp add: closed_queued_def)
  have g: "on_grid (clock (at_time 1000))" "on_grid (clock (at_time 1000.125))"
    "on_grid (s_last_left_click opened_default)"
    "list_all on_grid (map clock [at_time 1000.125, at_time 1000.25])"
    by (simp_all add: on_grid_def at_time_def opened_default_def)
  have r: "rapid_after (clock (at_time 1000)) (map clock [at_time 1000.125, at_time 1000.25])"
    by (simp add: at_time_def)
  have l: "0.35 \<le> clock (at_time 1000) - s_last_left_click opened_default"
    by (simp add: at_time_def opened_default_def)
  note w = left_click_window [OF a opened_default_focus,
      of "at_time 1000" 0 0 "at_time 1000.125" "[at_time 1000.125, at_time 1000.25]"
         closed_queued]
  from w g l have s1: "on_click (at_time 1000) 0 0 Left True opened_default =
      Returned (opened_default\<lparr>s_last_left_click := clock (at_time 1000),
                  s_primary_queue := s_primary_queue opened_default @ [copy_binding]\<rparr>)"
    by blast
  from w g r have s2:
    "run (left_clicks [at_time 1000, at_time 1000.125, at_time 1000.25]) opened_default =
      and_then (on_click (at_time 1000) 0 0 Left True opened_default)
        (\<lambda>e1. Returned (e1\<lparr>s_last_left_click :=
                             last (clock (at_time 1000) # map clock [at_time 1000.125, at_time 1000.25]),
                            s_secondary_queue := s_secondary_queue e1
                              @ replicate (length [at_time 1000.125, at_time 1000.25]) copy_binding\<rparr>))"
    by blast
  from w g have s3:
    "run [(at_time 1000, Click 0 0 Left True), (at_time 1000.125, Click 0 0 Left True)]
         opened_default =
       and_then (on_click (at_time 1000) 0 0 Left True opened_default)
         (\<lambda>e1. Returned (if clock (at_time 1000.125) - clock (at_time 1000) < 0.35
                         then e1\<lparr>s_last_left_click := clock (at_time 1000.125),
                                 s_secondary_queue := s_secondary_queue e1 @ [copy_binding]\<rparr>
                         else e1\<lparr>s_last_left_click := clock (at_time 1000.125),
                                 s_primary_queue := s_primary_queue e1 @ [copy_binding]\<rparr>))"
    by blast
  from w c have s4: "on_click (at_time 1000) 0 0 Left True closed_queued = Returned closed_queued"
    by blast
  show ?thesis
    unfolding s2 s3 s4 s1 by (simp add: at_time_def opened_default_def)
qed

subsection \<open>Right click: undo\<close>

text \<open>
  Claim C3. A right click while the menu is open removes the last element of the
  primary queue when that queue is not empty (whatever the secondary queue holds);
  otherwise it removes the last element of the secondary queue when that is not empty;
  otherwise it force-closes the menu. The primary queue comes first even when the most
  recent append went to the secondary queue: after a primary append, then a secondary
  append, a right click takes back the primary one (fourth conjunct, with the two
  appends as the double-precision test of the clicks decides them; fifth conjunct, for
  time stamps on the grid, with the gaps in seconds).
\<close>

theorem right_click_undo:
  assumes "s_menu_active e"
  shows
    "(s_primary_queue e = ps @ [p] \<longrightarrow>
        on_click v x y Right True e = Returned (e\<lparr>s_primary_queue := ps\<rparr>)) \<and>
     (s_primary_queue e = [] \<and> s_secondary_queue e = ss @ [s] \<longrightarrow>
        on_click v x y Right True e = Returned (e\<lparr>s_secondary_queue := ss\<rparr>)) \<and>
     (s_primary_queue e = [] \<and> s_secondary_queue e = [] \<longrightarrow>
        on_click v x y Right True e =
          Returned (e\<lparr>s_overlay := overlay_close (s_overlay e), s_menu_active := False\<rparr>)) \<and>
     (current_focus_binding e = Inr (Some b) \<and>
      \<not> binary64 (clock v1 - s_last_left_click e) < binary64 0.35 \<and>
      binary64 (clock v2 - clock v1) < binary64 0.35 \<longrightarrow>
        run [(v1, Click x y Left True), (v2, Click x y Left True), (v, Click x y Right True)] e =
          Returned (e\<lparr>s_last_left_click := clock v2,
                      s_secondary_queue := s_secondary_queue e @ [b]\<rparr>)) \<and>
     (current_focus_binding e = Inr (Some b) \<and>
      on_grid (s_last_left_click e) \<and> on_grid (clock v1) \<and> on_grid (clock v2) \<and>
      0.35 \<le> clock v1 - s_last_left_click e \<and> clock v2 - clock v1 < 0.35 \<longrightarrow>
        run [(v1, Click x y Left True), (v2, Click x y Left True), (v, Click x y Right True)] e =
          Returned (e\<lparr>s_last_left_click := clock v2,
                      s_secondary_queue := s_secondary_queue e @ [b]\<rparr>))"
proof (intro conjI impI)
  assume "s_primary_queue e = ps @ [p]"
  then show "on_click v x y Right True e = Returned (e\<lparr>s_primary_queue := ps\<rparr>)"
    using assms by (simp add: right_click_open)
next
  assume "s_primary_queue e = [] \<and> s_secondary_queue e = ss @ [s]"
  then show "on_click v x y Right True e = Returned (e\<lparr>s_secondary_queue := ss\<rparr>)"
    using assms by (simp add: right_click_open)
next
  assume "s_primary_queue e = [] \<and> s_secondary_queue e = []"
  then show "on_click v x y Right True e =
      Returned (e\<lparr>s_overlay := overlay_close (s_overlay e), s_menu_active := False\<rparr>)"
    using assms by (simp add: right_click_open)
next
  assume "current_focus_binding e = Inr (Some b) \<and>
      \<not> binary64 (clock v1 - s_last_left_click e) < binary64 0.35 \<and>
      binary64 (clock v2 - clock v1) < binary64 0.35"
  then show "run [(v1, Click x y Left True), (v2, Click x y Left True), (v, Click x y Right True)] e =
      Returned (e\<lparr>s_last_left_click := clock v2, s_secondary_queue := s_secondary_queue e @ [b]\<rparr>)"
    using click_double_click_undo [OF assms, of b v1 v2 x y v] by blast
next
  assume h: "current_focus_binding e = Inr (Some b) \<and>
      on_grid (s_last_left_click e) \<and> on_grid (clock v1) \<and> on_grid (clock v2) \<and>
      0.35 \<le> clock v1 - s_last_left_click e \<and> clock v2 - clock v1 < 0.35"
  then have "\<not> clock v1 - s_last_left_click e < 0.35" by simp
  with h grid_test [of "clock v1" "s_last_left_click e"]
  have t1: "\<not> binary64 (clock v1 - s_last_left_click e) < binary64 0.35" by blast
  from h grid_test [of "clock v2" "clock v1"]
  have t2: "binary64 (clock v2 - clock v1) < binary64 0.35" by blast
  from h have f: "current_focus_binding e = Inr (Some b)" by blast
  show "run [(v1, Click x y Left True), (v2, Click x y Left True), (v, Click x y Right True)] e =
      Returned (e\<lparr>s_last_left_click := clock v2, s_secondary_queue := s_secondary_queue e @ [b]\<rparr>)"
    by (rule click_double_click_undo [OF assms f t1 t2])
qed

text \<open>
  On the example: two bindings in the primary queue; the primary queue empty and one
  binding in the secondary queue; both empty; and a click, a double click, an undo.
\<close>

theorem right_click_undo_witness:
  "on_click (at_time 1002) 0 0 Right True queued_default =
     Returned (queued_default\<lparr>s_primary_queue := [copy_binding]\<rparr>) \<and>
   on_click (at_time 1002) 0 0 Right True (queued_default\<lparr>s_primary_queue := []\<rparr>) =
     Returned (queued_default\<lparr>s_primary_queue := [], s_secondary_queue := []\<rparr>) \<and>
   on_click (at_time 1002) 0 0 Right True opened_default =
     Returned (opened_default\<lparr>s_overlay := (s_overlay opened_default)\<lparr>o_visible := False\<rparr>,
                 s_menu_active := False\<rparr>) \<and>
   run [(at_time 1000, Click 0 0 Left True), (at_time 1000.125, Click 0 0 Left True),
        (at_time 1000.25, Click 0 0 Right True)] opened_default =
     Returned (opened_default\<lparr>s_last_left_click := 1000.125, s_secondary_queue := [copy_binding]\<rparr>)"
proof -
  have a: "s_menu_active queued_default" "s_menu_active (queued_default\<lparr>s_primary_queue := []\<rparr>)"
    "s_menu_active opened_default"
    by (simp_all add: queued_default_def opened_default_def)
  have p: "s_primary_queue queued_default = [copy_binding] @ [paste_binding]"
    by (simp add: queued_default_def)
  have s: "s_primary_queue (queued_default\<lparr>s_primary_queue := []\<rparr>) = [] \<and>
           s_secondary_queue (queued_default\<lparr>s_primary_queue := []\<rparr>) = [] @ [cut_binding]"
    by (simp add: queued_default_def)
  have n: "s_primary_queue opened_default = [] \<and> s_secondary_queue opened_default = []"
    by (simp add: opened_default_def)
  have "on_grid (s_last_left_click opened_default) \<and> on_grid (clock (at_time 1000)) \<and>
        on_grid (clock (at_time 1000.125)) \<and>
        0.35 \<le> clock (at_time 1000) - s_last_left_click opened_default \<and>
        clock (at_time 1000.125) - clock (at_time 1000) < 0.35"
    by (simp add: at_time_def opened_default_def on_grid_def)
  with opened_default_focus
  have t: "current_focus_binding opened_default = Inr (Some copy_binding) \<and>
        on_grid (s_last_left_click opened_default) \<and> on_grid (clock (at_time 1000)) \<and>
        on_grid (clock (at_time 1000.125)) \<and>
        0.35 \<le> clock (at_time 1000) - s_last_left_click opened_default \<and>
        clock (at_time 1000.125) - clock (at_time 1000) < 0.35"
    by blast
  from right_click_undo [OF a(1), of "[copy_binding]" paste_binding "at_time 1002" 0 0] p
  have 1: "on_click (at_time 1002) 0 0 Right True queued_default =
     Returned (queued_default\<lparr>s_primary_queue := [copy_binding]\<rparr>)"
    by blast
  from right_click_undo [OF a(2), of _ _ "at_time 1002" 0 0 "[]" cut_binding] s
  have 2: "on_click (at_time 1002) 0 0 Right True (queued_default\<lparr>s_primary_queue := []\<rparr>) =
     Returned (queued_default\<lparr>s_primary_queue := [], s_secondary_queue := []\<rparr>)"
    by simp
  from right_click_undo [OF a(3), of _ _ "at_time 1002" 0 0] n
  have 3: "on_click (at_time 1002) 0 0 Right True opened_default =
     Returned (opened_default\<lparr>s_overlay := (s_overlay opened_default)\<lparr>o_visible := False\<rparr>,
                 s_menu_active := False\<rparr>)"
    by (simp add: overlay_close_def)
  from right_click_undo [OF a(3), of _ _ "at_time 1000.25" 0 0 _ _ copy_binding "at_time 1000" "at_time 1000.125"] t
  have 4: "run [(at_time 1000, Click 0 0 Left True), (at_time 1000.125, Click 0 0 Left True),
        (at_time 1000.25, Click 0 0 Right True)] opened_default =
     Returned (opened_default\<lparr>s_last_left_click := 1000.125, s_secondary_queue := [copy_binding]\<rparr>)"
    by (simp add: at_time_def opened_default_def)
  from 1 2 3 4 show ?thesis by blast
qed

subsection \<open>Opening the menu\<close>

text \<open>
  Claim C4. A press of the trigger button (\<open>Middle\<close>) while the menu is closed and a
  mode is active opens the menu, whatever the state before: both queues are emptied,
  the overlay's focus index is 0, and the overlay displays the primary bindings of the
  active mode tagged with level 1, followed by its secondary bindings tagged with
  level 2, each list in its configured order. Nothing else of the engine changes but
  the menu-open flag, and the overlay's window exists and is visible.
\<close>

theorem open_transition:
  assumes "\<not> s_menu_active e" and "current_mode e = Inr m"
  shows "on_click v x y Middle True e =
           Returned (e\<lparr>s_overlay := (s_overlay e)\<lparr>o_items :=
                           map (\<lambda>b. \<lparr>binding = b, queue_level = 1\<rparr>) (primary_queue m)
                           @ map (\<lambda>b. \<lparr>binding = b, queue_level = 2\<rparr>) (secondary_queue m),
                         o_focus_index := 0, o_root := True, o_visible := True\<rparr>,
                       s_primary_queue := [], s_secondary_queue := [], s_menu_active := True\<rparr>)"
  using toggle_open [OF assms] by (simp add: on_click_def)

text \<open>
  Opening the menu again after it was closed with two bindings in the primary queue,
  one in the secondary queue and the focus on the third item.
\<close>

theorem open_transition_witness:
  "on_click (at_time 1004) 0 0 Middle True closed_queued =
     Returned (opened_default\<lparr>s_last_left_click := 1001.25\<rparr>) \<and>
   s_primary_queue closed_queued = [copy_binding, paste_binding] \<and>
   s_secondary_queue closed_queued = [cut_binding] \<and>
   o_focus_index (s_overlay closed_queued) = 2"
proof -
  have a: "\<not> s_menu_active closed_queued"
    by (simp add: closed_queued_def)
  have m: "current_mode closed_queued = Inr default_mode"
    by (simp add: closed_queued_def queued_default_def opened_default_def current_mode_def
        getitem_def default_config_def)
  have "on_click (at_time 1004) 0 0 Middle True closed_queued =
     Returned (opened_default\<lparr>s_last_left_click := 1001.25\<rparr>)"
    unfolding open_transition [OF a m, of "at_time 1004" 0 0]
    by (simp add: closed_queued_def queued_default_def opened_default_def default_mode_def)
  then show ?thesis
    by (simp add: closed_queued_def queued_default_def opened_default_def)
qed

subsection \<open>A failing dispatch\<close>

text \<open>
  Claim C5 says that a dispatch failure during batch execution is not fatal: the
  remaining queued bindings are still dispatched. \<^verbatim>\<open>_execute_queues\<close> has no exception
  handler, so this does not hold. With \<open>copy\<close> and an unregistered identifier in the
  primary queue and \<open>paste\<close> in the secondary queue, the \<^verbatim>\<open>KeyError\<close> of the second call
  leaves the handler: \<open>paste\<close> is never passed to the registry, and the menu is still
  open.
\<close>

theorem batch_execute_abort_counterexample:
  "on_click (at_time 1002) 0 0 X2 True queued_faulty =
     Raised (KeyError ''no_such_action'')
       (queued_faulty\<lparr>dispatched := [(''copy'', []), (''no_such_action'', [])]\<rparr>) \<and>
   s_secondary_queue queued_faulty = [paste_binding] \<and>
   call_of paste_binding \<notin> set [(''copy'', []), (''no_such_action'', [])] \<and>
   s_menu_active queued_faulty"
  by (simp add: queued_faulty_def model_defs example_defs call_of_def copy_binding_def
      paste_binding_def unknown_binding_def Let_def)

text \<open>
  Claim C5, amended. The first call that raises (an unknown identifier, or a handler
  that raises) ends batch execution: the bindings queued before it have been
  dispatched in order and are not rolled back, the failing binding is the last one
  passed to the registry, no later binding is dispatched, the forced close is not
  performed (overlay, menu-open flag and queues are unchanged), and the exception
  leaves the event handler.
\<close>

theorem batch_execute_failure:
  assumes "s_menu_active e"
    and "s_primary_queue e @ s_secondary_queue e = pre @ b # post"
    and "\<forall>a \<in> set pre. dispatch_result (registry v) a = None"
    and "dispatch_result (registry v) b = Some err"
  shows "on_click v x y X2 True e =
           Raised err (e\<lparr>dispatched := dispatched e @ map call_of pre @ [call_of b]\<rparr>)"
proof -
  from assms(3) have "list_all (\<lambda>a. dispatch_result (registry v) a = None) pre"
    by (simp only: list_all_iff)
  from dispatch_all_fail [OF this assms(4)]
  have "execute_queues v e =
      Raised err (e\<lparr>dispatched := dispatched e @ map call_of pre @ [call_of b]\<rparr>)"
    by (simp add: execute_queues_concat assms(2))
  then show ?thesis
    using assms(1) by (simp add: on_click_def)
qed

text \<open>The same example through the theorem: two calls made, menu open, overlay shown.\<close>

theorem batch_execute_failure_witness:
  "dispatched (state_of (on_click (at_time 1002) 0 0 X2 True queued_faulty))
     = [call_of copy_binding, call_of unknown_binding] \<and>
   s_menu_active (state_of (on_click (at_time 1002) 0 0 X2 True queued_faulty)) \<and>
   o_visible (s_overlay (state_of (on_click (at_time 1002) 0 0 X2 True queued_faulty)))"
proof -
  have a: "s_menu_active queued_faulty"
    by (simp add: queued_faulty_def)
  have q: "s_primary_queue queued_faulty @ s_secondary_queue queued_faulty
           = [copy_binding] @ unknown_binding # [paste_binding]"
    by (simp add: queued_faulty_def)
  have h: "\<forall>a \<in> set [copy_binding]. dispatch_result (registry (at_time 1002)) a = None"
    by (simp add: dispatch_result_def at_time_def example_registry_def copy_binding_def)
  have f: "dispatch_result (registry (at_time 1002)) unknown_binding = Some (KeyError ''no_such_action'')"
    by (simp add: dispatch_result_def at_time_def example_registry_def unknown_binding_def)
  show ?thesis
    unfolding batch_execute_failure [OF a q h f, of 0 0]
    by (simp add: queued_faulty_def)
qed

subsection \<open>The queues over the life of a menu\<close>

text \<open>
  Claim C6 says that the queues are non-empty only while the menu is open, and that
  both are empty after a close, an execute or a cancel. No closing transition of
  \<^verbatim>\<open>_toggle_menu\<close> touches the queues, so this does not hold: after opening the
  menu, queueing three bindings and pressing escape, the menu is closed and both queues
  still hold what was queued.
\<close>

theorem queues_survive_close_counterexample:
  "run (queue_events @ [(at_time 1003, KeyPress Esc)]) (engine_init default_config)
     = Returned closed_queued \<and>
   \<not> s_menu_active closed_queued \<and>
   s_primary_queue closed_queued = [copy_binding, paste_binding] \<and>
   s_secondary_queue closed_queued = [cut_binding]"
proof -
  have "on_key_press Esc queued_default = Returned closed_queued"
    by (simp add: on_key_press_def toggle_menu_def overlay_close_def closed_queued_def
        queued_default_def opened_default_def)
  then show ?thesis
    by (simp add: run_append queued_default_reachable closed_queued_def queued_default_def)
qed

text \<open>
  Claim C6, amended. Both queues are emptied by every open transition. A toggle-close,
  a cancel (escape key, the overlay's cancel, or a right click with both queues empty)
  and a batch execute whose calls all return clear the menu-open flag and hide the
  overlay, and leave both queues exactly as they were. So the queues can be non-empty
  while the menu is closed; they stay so until the next open empties them.
\<close>

theorem queue_lifecycle:
  "(\<not> s_menu_active e \<and> current_mode e = Inr m \<longrightarrow>
      on_click v x y Middle True e =
        Returned (e\<lparr>s_overlay := overlay_open (menu_items m) (s_overlay e),
                    s_primary_queue := [], s_secondary_queue := [], s_menu_active := True\<rparr>)) \<and>
   (s_menu_active e \<longrightarrow>
      on_click v x y Middle True e =
        Returned (e\<lparr>s_overlay := overlay_close (s_overlay e), s_menu_active := False\<rparr>) \<and>
      on_key_press Esc e =
        Returned (e\<lparr>s_overlay := overlay_close (s_overlay e), s_menu_active := False\<rparr>) \<and>
      cancel e =
        Returned (e\<lparr>s_overlay := overlay_close (s_overlay e), s_menu_active := False\<rparr>)) \<and>
   (s_menu_active e \<and> s_primary_queue e = [] \<and> s_secondary_queue e = [] \<longrightarrow>
      on_click v x y Right True e =
        Returned (e\<lparr>s_overlay := overlay_close (s_overlay e), s_menu_active := False\<rparr>)) \<and>
   (s_menu_active e \<and>
    list_all (\<lambda>b. dispatch_result (registry v) b = None) (s_primary_queue e @ s_secondary_queue e) \<longrightarrow>
      on_click v x y X2 True e =
        Returned (e\<lparr>dispatched := dispatched e
                      @ map call_of (s_primary_queue e @ s_secondary_queue e),
                    s_overlay := overlay_close (s_overlay e), s_menu_active := False\<rparr>))"
proof (intro conjI impI)
  assume "\<not> s_menu_active e \<and> current_mode e = Inr m"
  then show "on_click v x y Middle True e =
        Returned (e\<lparr>s_overlay := overlay_open (menu_items m) (s_overlay e),
                    s_primary_queue := [], s_secondary_queue := [], s_menu_active := True\<rparr>)"
    by (simp add: on_click_def toggle_menu_def)
next
  assume a: "s_menu_active e"
  show "on_click v x y Middle True e =
        Returned (e\<lparr>s_overlay := overlay_close (s_overlay e), s_menu_active := False\<rparr>)"
    using a by (simp add: on_click_def toggle_close)
  show "on_key_press Esc e =
        Returned (e\<lparr>s_overlay := overlay_close (s_overlay e), s_menu_active := False\<rparr>)"
    using a by (simp add: on_key_press_def toggle_force)
  show "cancel e =
        Returned (e\<lparr>s_overlay := overlay_close (s_overlay e), s_menu_active := False\<rparr>)"
    by (simp add: cancel_def handle_cancel_def toggle_force)
next
  assume "s_menu_active e \<and> s_primary_queue e = [] \<and> s_secondary_queue e = []"
  then show "on_click v x y Right True e =
        Returned (e\<lparr>s_overlay := overlay_close (s_overlay e), s_menu_active := False\<rparr>)"
    by (simp add: right_click_open)
next
  assume h: "s_menu_active e \<and>
    list_all (\<lambda>b. dispatch_result (registry v) b = None) (s_primary_queue e @ s_secondary_queue e)"
  then have x: "on_click v x y X2 True e =
      toggle_menu True (e\<lparr>dispatched := dispatched e
          @ map call_of (s_primary_queue e @ s_secondary_queue e)\<rparr>)"
    using dispatch_all_ok [of "registry v" "s_primary_queue e @ s_secondary_queue e" e]
    by (simp add: on_click_def execute_queues_concat)
  show "on_click v x y X2 True e =
        Returned (e\<lparr>dispatched := dispatched e
                      @ map call_of (s_primary_queue e @ s_secondary_queue e),
                    s_overlay := overlay_close (s_overlay e), s_menu_active := False\<rparr>)"
    unfolding x by (simp add: toggle_force)
qed

text \<open>Each transition on the example states.\<close>

theorem queue_lifecycle_witness:
  "s_primary_queue (state_of (on_click (at_time 1004) 0 0 Middle True closed_queued)) = [] \<and>
   s_secondary_queue (state_of (on_click (at_time 1004) 0 0 Middle True closed_queued)) = [] \<and>
   on_click (at_time 1003) 0 0 Middle True queued_default = Returned closed_queued \<and>
   on_key_press Esc queued_default = Returned closed_queued \<and>
   cancel queued_default = Returned closed_queued \<and>
   on_click (at_time 1003) 0 0 Right True opened_default =
     Returned (opened_default\<lparr>s_overlay := (s_overlay opened_default)\<lparr>o_visible := False\<rparr>,
                 s_menu_active := False\<rparr>) \<and>
   on_click (at_time 1003) 0 0 X2 True queued_default =
     Returned (closed_queued\<lparr>dispatched := [(''copy'', []), (''paste'', []), (''cut'', [])]\<rparr>) \<and>
   s_primary_queue closed_queued = [copy_binding, paste_binding] \<and>
   s_secondary_queue closed_queued = [cut_binding]"
proof -
  have c: "\<not> s_menu_active closed_queued \<and> current_mode closed_queued = Inr default_mode"
    by (simp add: closed_queued_def queued_default_def opened_default_def current_mode_def
        getitem_def default_config_def)
  have a: "s_menu_active queued_default"
    by (simp add: queued_default_def opened_default_def)
  have n: "s_menu_active opened_default \<and> s_primary_queue opened_default = [] \<and>
           s_secondary_queue opened_default = []"
    by (simp add: opened_default_def)
  have d: "s_menu_active queued_default \<and>
      list_all (\<lambda>b. dispatch_result (registry (at_time 1003)) b = None)
        (s_primary_queue queued_default @ s_secondary_queue queued_default)"
    by (simp add: queued_default_def opened_default_def dispatch_result_def at_time_def
        example_registry_def copy_binding_def paste_binding_def cut_binding_def)
  have k: "queued_default\<lparr>s_overlay := overlay_close (s_overlay queued_default),
                           s_menu_active := False\<rparr> = closed_queued"
    by (simp add: closed_queued_def overlay_close_def)
  note o = queue_lifecycle [of closed_queued default_mode "at_time 1004" 0 0]
  note q = queue_lifecycle [of queued_default default_mode "at_time 1003" 0 0]
  note r = queue_lifecycle [of opened_default default_mode "at_time 1003" 0 0]
  from o c have 1: "on_click (at_time 1004) 0 0 Middle True closed_queued =
        Returned (closed_queued\<lparr>s_overlay := overlay_open (menu_items default_mode) (s_overlay closed_queued),
                    s_primary_queue := [], s_secondary_queue := [], s_menu_active := True\<rparr>)"
    by blast
  from q a have 2: "on_click (at_time 1003) 0 0 Middle True queued_default = Returned closed_queued \<and>
      on_key_press Esc queued_default = Returned closed_queued \<and>
      cancel queued_default = Returned closed_queued"
    unfolding k by blast
  from r n have 3: "on_click (at_time 1003) 0 0 Right True opened_default =
     Returned (opened_default\<lparr>s_overlay := overlay_close (s_overlay opened_default),
                 s_menu_active := False\<rparr>)"
    by blast
  from q d have 4: "on_click (at_time 1003) 0 0 X2 True queued_default =
        Returned (queued_default\<lparr>dispatched := dispatched queued_default
                      @ map call_of (s_primary_queue queued_default @ s_secondary_queue queued_default),
                    s_overlay := overlay_close (s_overlay queued_default), s_menu_active := False\<rparr>)"
    by blast
  have 5: "queued_default\<lparr>dispatched := dispatched queued_default
                      @ map call_of (s_primary_queue queued_default @ s_secondary_queue queued_default),
                    s_overlay := overlay_close (s_overlay queued_default), s_menu_active := False\<rparr>
           = closed_queued\<lparr>dispatched := [(''copy'', []), (''paste'', []), (''cut'', [])]\<rparr>"
    by (simp add: closed_queued_def queued_default_def opened_default_def overlay_close_def
        call_of_def copy_binding_def paste_binding_def cut_binding_def)
  show ?thesis
    unfolding 1 using 2 3 4 [unfolded 5]
    by (simp add: overlay_close_def closed_queued_def queued_default_def)
qed

subsection \<open>The focused binding\<close>

text \<open>
  Claim C7 says that with an empty concatenation no binding is focused and that
  selection and undo events are then no-ops. The first part holds. But a right click
  never reads the focused binding: on a menu opened on a mode without bindings it finds
  both queues empty and closes the menu, and a left click there still records its time.
\<close>

theorem undo_on_empty_menu_counterexample:
  "current_focus_binding opened_empty = Inr None \<and>
   s_menu_active opened_empty \<and>
   on_click (at_time 1000) 0 0 Right True opened_empty =
     Returned (opened_empty\<lparr>s_overlay := (s_overlay opened_empty)\<lparr>o_visible := False\<rparr>,
                 s_menu_active := False\<rparr>) \<and>
   on_click (at_time 1000) 0 0 Right True opened_empty \<noteq> Returned opened_empty \<and>
   on_click (at_time 1000) 0 0 Left True opened_empty =
     Returned (opened_empty\<lparr>s_last_left_click := 1000\<rparr>) \<and>
   on_click (at_time 1000) 0 0 Left True opened_empty \<noteq> Returned opened_empty"
  by (simp add: opened_empty_def model_defs example_defs Let_def)

text \<open>
  Claim C7, amended. The focused binding is the element of the concatenation of the
  active mode's primary and secondary lists at the overlay's focus index clamped into
  \<open>0 .. length - 1\<close>: for every integer focus index it is an element of the
  concatenation when that is not empty. When the concatenation is empty no binding is
  focused; a left click then appends nothing (it only records its time, see claim C10),
  and a right click still acts as undo or cancel: with both queues empty it closes the
  menu.
\<close>

theorem focus_resolution:
  "(current_mode e = Inr m \<and> primary_queue m @ secondary_queue m \<noteq> [] \<longrightarrow>
      current_focus_binding e =
        Inr (Some ((primary_queue m @ secondary_queue m)
               ! nat (max 0 (min (int (length (primary_queue m @ secondary_queue m)) - 1)
                                 (o_focus_index (s_overlay e)))))) \<and>
      nat (max 0 (min (int (length (primary_queue m @ secondary_queue m)) - 1)
                      (o_focus_index (s_overlay e))))
        < length (primary_queue m @ secondary_queue m)) \<and>
   (current_mode e = Inr m \<and> primary_queue m @ secondary_queue m = [] \<longrightarrow>
      current_focus_binding e = Inr None \<and>
      (s_menu_active e \<longrightarrow>
         on_click v x y Left True e = Returned (e\<lparr>s_last_left_click := clock v\<rparr>)) \<and>
      (s_menu_active e \<and> s_primary_queue e = [] \<and> s_secondary_queue e = [] \<longrightarrow>
         on_click v x y Right True e =
           Returned (e\<lparr>s_overlay := overlay_close (s_overlay e), s_menu_active := False\<rparr>)))"
proof (intro conjI impI)
  assume h: "current_mode e = Inr m \<and> primary_queue m @ secondary_queue m \<noteq> []"
  then show "current_focus_binding e =
        Inr (Some ((primary_queue m @ secondary_queue m)
               ! nat (max 0 (min (int (length (primary_queue m @ secondary_queue m)) - 1)
                                 (o_focus_index (s_overlay e))))))"
    using focus_nonempty [of e m] by blast
  from h clamp_in_range [of "primary_queue m @ secondary_queue m" "o_focus_index (s_overlay e)"]
  show "nat (max 0 (min (int (length (primary_queue m @ secondary_queue m)) - 1)
                      (o_focus_index (s_overlay e))))
        < length (primary_queue m @ secondary_queue m)"
    by linarith
next
  assume h: "current_mode e = Inr m \<and> primary_queue m @ secondary_queue m = []"
  then show n: "current_focus_binding e = Inr None"
    using focus_empty [of e m] by blast
  show "on_click v x y Left True e = Returned (e\<lparr>s_last_left_click := clock v\<rparr>)"
    if "s_menu_active e"
    using that n by (rule left_click_unfocused)
  show "on_click v x y Right True e =
           Returned (e\<lparr>s_overlay := overlay_close (s_overlay e), s_menu_active := False\<rparr>)"
    if "s_menu_active e \<and> s_primary_queue e = [] \<and> s_secondary_queue e = []"
    using that by (simp add: right_click_open)
qed

text \<open>
  A focus index beyond the last item resolves to the last binding, a negative one to the
  first; on the mode without bindings nothing is focused.
\<close>

theorem focus_resolution_witness:
  "current_focus_binding (opened_default\<lparr>s_overlay := (s_overlay opened_default)\<lparr>o_focus_index := 7\<rparr>\<rparr>)
     = Inr (Some cut_binding) \<and>
   current_focus_binding (opened_default\<lparr>s_overlay := (s_overlay opened_default)\<lparr>o_focus_index := - 5\<rparr>\<rparr>)
     = Inr (Some copy_binding) \<and>
   current_focus_binding opened_empty = Inr None \<and>
   on_click (at_time 1000) 0 0 Left True opened_empty =
     Returned (opened_empty\<lparr>s_last_left_click := 1000\<rparr>) \<and>
   on_click (at_time 1000) 0 0 Right True opened_empty =
     Returned (opened_empty\<lparr>s_overlay := (s_overlay opened_empty)\<lparr>o_visible := False\<rparr>,
                 s_menu_active := False\<rparr>)"
proof -
  let ?hi = "opened_default\<lparr>s_overlay := (s_overlay opened_default)\<lparr>o_focus_index := 7\<rparr>\<rparr>"
  let ?lo = "opened_default\<lparr>s_overlay := (s_overlay opened_default)\<lparr>o_focus_index := - 5\<rparr>\<rparr>"
  have ne: "primary_queue default_mode @ secondary_queue default_mode \<noteq> []"
    by (simp add: default_mode_def)
  have mh: "current_mode ?hi = Inr default_mode" and ml: "current_mode ?lo = Inr default_mode"
    by (simp_all add: opened_default_def current_mode_def getitem_def default_config_def)
  have me: "current_mode opened_empty = Inr empty_mode \<and>
            primary_queue empty_mode @ secondary_queue empty_mode = []"
    by (simp add: opened_empty_def current_mode_def getitem_def empty_config_def empty_mode_def)
  have ae: "s_menu_active opened_empty \<and> s_primary_queue opened_empty = [] \<and>
            s_secondary_queue opened_empty = []"
    by (simp add: opened_empty_def)
  from focus_resolution [of ?hi default_mode] mh ne
  have "current_focus_binding ?hi =
        Inr (Some ((primary_queue default_mode @ secondary_queue default_mode)
               ! nat (max 0 (min (int (length (primary_queue default_mode @ secondary_queue default_mode)) - 1)
                                 (o_focus_index (s_overlay ?hi))))))"
    by blast
  then have 1: "current_focus_binding ?hi = Inr (Some cut_binding)"
    by (simp add: default_mode_def)
  from focus_resolution [of ?lo default_mode] ml ne
  have "current_focus_binding ?lo =
        Inr (Some ((primary_queue default_mode @ secondary_queue default_mode)
               ! nat (max 0 (min (int (length (primary_queue default_mode @ secondary_queue default_mode)) - 1)
                                 (o_focus_index (s_overlay ?lo))))))"
    by blast
  then have 2: "current_focus_binding ?lo = Inr (Some copy_binding)"
    by (simp add: default_mode_def)
  from focus_resolution [of opened_empty empty_mode "at_time 1000" 0 0] me ae
  have 3: "current_focus_binding opened_empty = Inr None \<and>
      on_click (at_time 1000) 0 0 Left True opened_empty =
        Returned (opened_empty\<lparr>s_last_left_click := clock (at_time 1000)\<rparr>) \<and>
      on_click (at_time 1000) 0 0 Right True opened_empty =
        Returned (opened_empty\<lparr>s_overlay := overlay_close (s_overlay opened_empty),
                    s_menu_active := False\<rparr>)"
    by blast
  from 1 2 3 show ?thesis
    by (simp add: at_time_def overlay_close_def)
qed

subsection \<open>Moving the focus\<close>

text \<open>
  Claim C8. With no displayed item \<open>focus_next\<close> and \<open>focus_prev\<close> change nothing.
  Otherwise they replace the focus index \<open>i\<close> by \<open>(i + 1) mod N\<close> and \<open>(i - 1) mod N\<close>,
  \<open>N\<close> the number of displayed items, and change nothing else. From an index within
  \<open>0 \<le> i < N\<close> (every index the overlay ever holds while it displays items, see
  \<open>run_focus_valid\<close>), \<open>N\<close> steps in one direction, and one step back followed by one step
  forward (or forward, then back), lead back to where they started.
\<close>

theorem focus_wraps:
  "(o_items ov = [] \<longrightarrow> focus_next ov = ov \<and> focus_prev ov = ov) \<and>
   (o_items ov \<noteq> [] \<longrightarrow>
      focus_next ov = ov\<lparr>o_focus_index := (o_focus_index ov + 1) mod int (length (o_items ov))\<rparr> \<and>
      focus_prev ov = ov\<lparr>o_focus_index := (o_focus_index ov - 1) mod int (length (o_items ov))\<rparr>) \<and>
   (0 \<le> o_focus_index ov \<and> o_focus_index ov < int (length (o_items ov)) \<longrightarrow>
      (focus_next ^^ length (o_items ov)) ov = ov \<and>
      (focus_prev ^^ length (o_items ov)) ov = ov \<and>
      focus_next (focus_prev ov) = ov \<and>
      focus_prev (focus_next ov) = ov)"
proof (intro conjI impI)
  assume r: "0 \<le> o_focus_index ov \<and> o_focus_index ov < int (length (o_items ov))"
  then have ne: "o_items ov \<noteq> []" by auto
  show "(focus_next ^^ length (o_items ov)) ov = ov"
    using r ne by (simp add: focus_next_index)
  show "(focus_prev ^^ length (o_items ov)) ov = ov"
    using r ne by (simp add: focus_prev_index)
  show "focus_next (focus_prev ov) = ov"
    using r ne by (simp add: focus_next_def focus_prev_def mod_simps)
  show "focus_prev (focus_next ov) = ov"
    using r ne by (simp add: focus_next_def focus_prev_def mod_simps)
qed (simp_all add: focus_next_def focus_prev_def)

text \<open>
  The overlay of the freshly opened example menu shows three items with the focus on
  the first; the overlay of a new engine shows none.
\<close>

theorem focus_wraps_witness:
  "(focus_next ^^ 3) (s_overlay opened_default) = s_overlay opened_default \<and>
   focus_next (focus_prev (s_overlay opened_default)) = s_overlay opened_default \<and>
   o_focus_index (focus_prev (s_overlay opened_default)) = 2 \<and>
   focus_next overlay_init = overlay_init \<and> focus_prev overlay_init = overlay_init"
proof -
  have n: "length (o_items (s_overlay opened_default)) = 3"
    by (simp add: opened_default_def)
  have r: "0 \<le> o_focus_index (s_overlay opened_default) \<and>
           o_focus_index (s_overlay opened_default) < int (length (o_items (s_overlay opened_default)))"
    by (simp add: opened_default_def)
  have ne: "o_items (s_overlay opened_default) \<noteq> []"
    by (simp add: opened_default_def)
  have e: "o_items overlay_init = []"
    by (simp add: overlay_init_def)
  note a = focus_wraps [of "s_overlay opened_default"] and b = focus_wraps [of overlay_init]
  from a r n have "(focus_next ^^ 3) (s_overlay opened_default) = s_overlay opened_default"
    by metis
  moreover from a r have "focus_next (focus_prev (s_overlay opened_default)) = s_overlay opened_default"
    by blast
  moreover from a ne have "focus_prev (s_overlay opened_default) =
      (s_overlay opened_default)\<lparr>o_focus_index :=
         (o_focus_index (s_overlay opened_default) - 1) mod int (length (o_items (s_overlay opened_default)))\<rparr>"
    by blast
  then have "o_focus_index (focus_prev (s_overlay opened_default)) = 2"
    by (simp add: opened_default_def)
  moreover from b e have "focus_next overlay_init = overlay_init \<and> focus_prev overlay_init = overlay_init"
    by blast
  ultimately show ?thesis by blast
qed

subsection \<open>Scrolling\<close>

text \<open>
  Claim C9 says that a scroll away from the user advances the focus (\<^verbatim>\<open>focus_next\<close>) and
  a scroll toward the user moves it back (\<^verbatim>\<open>focus_prev\<close>). \<^verbatim>\<open>_on_scroll\<close> does the
  opposite: \<^verbatim>\<open>dy > 0\<close>, the wheel rotated away from the user, calls \<^verbatim>\<open>focus_prev\<close>. On
  the freshly opened example menu a notch away from the user moves the focus from the
  first item to the last one (index 2), where \<^verbatim>\<open>focus_next\<close> would move it to index 1.
\<close>

theorem scroll_direction_counterexample:
  "s_menu_active opened_default \<and>
   on_scroll 0 0 0 (wheel_dy AwayFromUser) opened_default =
     Returned (opened_default\<lparr>s_overlay := (s_overlay opened_default)\<lparr>o_focus_index := 2\<rparr>\<rparr>) \<and>
   focus_prev (s_overlay opened_default) = (s_overlay opened_default)\<lparr>o_focus_index := 2\<rparr> \<and>
   focus_next (s_overlay opened_default) = (s_overlay opened_default)\<lparr>o_focus_index := 1\<rparr> \<and>
   on_scroll 0 0 0 (wheel_dy TowardUser) opened_default =
     Returned (opened_default\<lparr>s_overlay := (s_overlay opened_default)\<lparr>o_focus_index := 1\<rparr>\<rparr>)"
  by (simp add: opened_default_def on_scroll_def wheel_dy_def focus_next_def focus_prev_def)

text \<open>
  Claim C9, amended. A scroll event while the menu is closed changes nothing. While the
  menu is open, a scroll with a positive vertical delta (the wheel rotated away from the
  user) applies the overlay's \<^verbatim>\<open>focus_prev\<close>, and a scroll with a negative or zero
  vertical delta (the wheel rotated toward the user, or a purely horizontal scroll)
  applies its \<^verbatim>\<open>focus_next\<close>; only the overlay changes, so the menu-open flag and both
  queues are as before.
\<close>

theorem scroll_moves_focus:
  "(\<not> s_menu_active e \<longrightarrow> on_scroll x y dx dy e = Returned e) \<and>
   (s_menu_active e \<and> 0 < dy \<longrightarrow>
      on_scroll x y dx dy e = Returned (e\<lparr>s_overlay := focus_prev (s_overlay e)\<rparr>)) \<and>
   (s_menu_active e \<and> dy \<le> 0 \<longrightarrow>
      on_scroll x y dx dy e = Returned (e\<lparr>s_overlay := focus_next (s_overlay e)\<rparr>)) \<and>
   (s_menu_active e \<longrightarrow>
      on_scroll x y dx (wheel_dy AwayFromUser) e =
        Returned (e\<lparr>s_overlay := focus_prev (s_overlay e)\<rparr>) \<and>
      on_scroll x y dx (wheel_dy TowardUser) e =
        Returned (e\<lparr>s_overlay := focus_next (s_overlay e)\<rparr>))"
  by (simp add: on_scroll_def wheel_dy_def)

text \<open>One notch up, one notch down, a horizontal scroll, and a scroll on a closed menu.\<close>

theorem scroll_moves_focus_witness:
  "on_scroll 0 0 0 1 opened_default =
     Returned (opened_default\<lparr>s_overlay := (s_overlay opened_default)\<lparr>o_focus_index := 2\<rparr>\<rparr>) \<and>
   on_scroll 0 0 0 (- 1) opened_default =
     Returned (opened_default\<lparr>s_overlay := (s_overlay opened_default)\<lparr>o_focus_index := 1\<rparr>\<rparr>) \<and>
   on_scroll 0 0 1 0 opened_default =
     Returned (opened_default\<lparr>s_overlay := (s_overlay opened_default)\<lparr>o_focus_index := 1\<rparr>\<rparr>) \<and>
   on_scroll 0 0 0 1 closed_queued = Returned closed_queued"
proof -
  have a: "s_menu_active opened_default" "\<not> s_menu_active closed_queued"
    by (simp_all add: opened_default_def closed_queued_def)
  have p: "focus_prev (s_overlay opened_default) = (s_overlay opened_default)\<lparr>o_focus_index := 2\<rparr>"
    and n: "focus_next (s_overlay opened_default) = (s_overlay opened_default)\<lparr>o_focus_index := 1\<rparr>"
    by (simp_all add: opened_default_def focus_next_def focus_prev_def)
  from scroll_moves_focus [of opened_default 0 0 0 1] a(1)
  have 1: "on_scroll 0 0 0 1 opened_default =
      Returned (opened_default\<lparr>s_overlay := focus_prev (s_overlay opened_default)\<rparr>)"
    by simp
  from scroll_moves_focus [of opened_default 0 0 0 "- 1"] a(1)
  have 2: "on_scroll 0 0 0 (- 1) opened_default =
      Returned (opened_default\<lparr>s_overlay := focus_next (s_overlay opened_default)\<rparr>)"
    by simp
  from scroll_moves_focus [of opened_default 0 0 1 0] a(1)
  have 3: "on_scroll 0 0 1 0 opened_default =
      Returned (opened_default\<lparr>s_overlay := focus_next (s_overlay opened_default)\<rparr>)"
    by simp
  from scroll_moves_focus [of closed_queued 0 0 0 1] a(2)
  have 4: "on_scroll 0 0 0 1 closed_queued = Returned closed_queued"
    by blast
  from 1 2 3 4 show ?thesis
    unfolding p n by blast
qed

subsection \<open>A left click with nothing focused\<close>

text \<open>
  Claim C10. A left click on an open menu whose active mode has no binding at all
  appends nothing, but its time becomes the last-click time stamp; queues and menu-open
  flag are unchanged. The next left click is measured against it: if the settings editor
  then installs a configuration with a focused binding \<open>b\<close>, a left click less than 350 ms
  after the click that appended nothing puts \<open>b\<close> into the secondary queue, and a later
  one into the primary queue (second conjunct: as the double-precision test
  \<^verbatim>\<open>now - last < 0.35\<close> decides; third conjunct: for time stamps on the grid, by the gap
  in seconds).
\<close>

theorem unfocused_left_click:
  assumes "s_menu_active e" and "current_mode e = Inr m"
    and "primary_queue m @ secondary_queue m = []"
  shows
    "on_click v x y Left True e = Returned (e\<lparr>s_last_left_click := clock v\<rparr>) \<and>
     (\<not> s_settings_open e \<and> current_focus_binding (e\<lparr>s_config := edited u\<rparr>) = Inr (Some b) \<longrightarrow>
        run [(v, Click x y Left True), (u, Click x y X1 True), (w, Click x y Left True)] e =
          Returned (if binary64 (clock w - clock v) < binary64 0.35
                    then e\<lparr>s_config := edited u, s_last_left_click := clock w,
                           s_secondary_queue := s_secondary_queue e @ [b]\<rparr>
                    else e\<lparr>s_config := edited u, s_last_left_click := clock w,
                           s_primary_queue := s_primary_queue e @ [b]\<rparr>)) \<and>
     (\<not> s_settings_open e \<and> current_focus_binding (e\<lparr>s_config := edited u\<rparr>) = Inr (Some b) \<and>
      on_grid (clock v) \<and> on_grid (clock w) \<longrightarrow>
        run [(v, Click x y Left True), (u, Click x y X1 True), (w, Click x y Left True)] e =
          Returned (if clock w - clock v < 0.35
                    then e\<lparr>s_config := edited u, s_last_left_click := clock w,
                           s_secondary_queue := s_secondary_queue e @ [b]\<rparr>
                    else e\<lparr>s_config := edited u, s_last_left_click := clock w,
                           s_primary_queue := s_primary_queue e @ [b]\<rparr>))"
proof (intro conjI impI)
  from assms(2,3) have n: "current_focus_binding e = Inr None"
    by (rule focus_empty)
  show "on_click v x y Left True e = Returned (e\<lparr>s_last_left_click := clock v\<rparr>)"
    using assms(1) n by (rule left_click_unfocused)
  show "run [(v, Click x y Left True), (u, Click x y X1 True), (w, Click x y Left True)] e =
          Returned (if binary64 (clock w - clock v) < binary64 0.35
                    then e\<lparr>s_config := edited u, s_last_left_click := clock w,
                           s_secondary_queue := s_secondary_queue e @ [b]\<rparr>
                    else e\<lparr>s_config := edited u, s_last_left_click := clock w,
                           s_primary_queue := s_primary_queue e @ [b]\<rparr>)"
    if "\<not> s_settings_open e \<and> current_focus_binding (e\<lparr>s_config := edited u\<rparr>) = Inr (Some b)"
    using that click_after_settings [OF assms(1) n, of u b v x y w] by blast
  show "run [(v, Click x y Left True), (u, Click x y X1 True), (w, Click x y Left True)] e =
          Returned (if clock w - clock v < 0.35
                    then e\<lparr>s_config := edited u, s_last_left_click := clock w,
                           s_secondary_queue := s_secondary_queue e @ [b]\<rparr>
                    else e\<lparr>s_config := edited u, s_last_left_click := clock w,
                           s_primary_queue := s_primary_queue e @ [b]\<rparr>)"
    if h: "\<not> s_settings_open e \<and> current_focus_binding (e\<lparr>s_config := edited u\<rparr>) = Inr (Some b) \<and>
      on_grid (clock v) \<and> on_grid (clock w)"
  proof -
    from h grid_test [of "clock w" "clock v"]
    have t: "binary64 (clock w - clock v) < binary64 0.35 \<longleftrightarrow> clock w - clock v < 0.35"
      by blast
    from h click_after_settings [OF assms(1) n, of u b v x y w]
    show ?thesis unfolding t by blast
  qed
qed

text \<open>
  A click at 1000 s on the menu without bindings, the settings editor installing the
  example configuration, and a click at 1000.25 s: the binding goes to the secondary queue.
\<close>

theorem unfocused_left_click_witness:
  "on_click (at_time 1000) 0 0 Left True opened_empty =
     Returned (opened_empty\<lparr>s_last_left_click := 1000\<rparr>) \<and>
   run [(at_time 1000, Click 0 0 Left True), (at_time 1000.125, Click 0 0 X1 True),
        (at_time 1000.25, Click 0 0 Left True)] opened_empty =
     Returned (opened_empty\<lparr>s_config := default_config, s_last_left_click := 1000.25,
                 s_secondary_queue := [copy_binding]\<rparr>)"
proof -
  have a: "s_menu_active opened_empty"
    by (simp add: opened_empty_def)
  have m: "current_mode opened_empty = Inr empty_mode"
    by (simp add: opened_empty_def current_mode_def getitem_def empty_config_def)
  have n: "primary_queue empty_mode @ secondary_queue empty_mode = []"
    by (simp add: empty_mode_def)
  have f: "current_focus_binding (opened_empty\<lparr>s_config := edited (at_time 1000.125)\<rparr>)
           = Inr (Some copy_binding)"
    by (simp add: current_focus_binding_def current_mode_def getitem_def opened_empty_def
        at_time_def default_config_def default_mode_def)
  have s: "\<not> s_settings_open opened_empty"
    by (simp add: opened_empty_def)
  have g: "on_grid (clock (at_time 1000)) \<and> on_grid (clock (at_time 1000.25))"
    by (simp add: on_grid_def at_time_def)
  note w = unfocused_left_click [OF a m n, of "at_time 1000" 0 0 "at_time 1000.125" copy_binding
      "at_time 1000.25"]
  from w have 1: "on_click (at_time 1000) 0 0 Left True opened_empty =
      Returned (opened_empty\<lparr>s_last_left_click := clock (at_time 1000)\<rparr>)"
    by blast
  from w s f g have 2: "run [(at_time 1000, Click 0 0 Left True), (at_time 1000.125, Click 0 0 X1 True),
        (at_time 1000.25, Click 0 0 Left True)] opened_empty =
          Returned (if clock (at_time 1000.25) - clock (at_time 1000) < 0.35
                    then opened_empty\<lparr>s_config := edited (at_time 1000.125),
                           s_last_left_click := clock (at_time 1000.25),
                           s_secondary_queue := s_secondary_queue opened_empty @ [copy_binding]\<rparr>
                    else opened_empty\<lparr>s_config := edited (at_time 1000.125),
                           s_last_left_click := clock (at_time 1000.25),
                           s_primary_queue := s_primary_queue opened_empty @ [copy_binding]\<rparr>)"
    by blast
  show ?thesis
    unfolding 1 2 by (simp add: at_time_def opened_empty_def)
qed

end
